theory Spec2Isabelle
  imports Complex_Main
begin

section \<open>Strings\<close>

text \<open>
  A Python string is modelled as the list of the code points (\<open>ord\<close>) of its
  characters.  String literals of the source are ASCII; they are written \<open>ascii ''...''\<close>.
\<close>

type_synonym ustring = "int list"

abbreviation ascii :: "string \<Rightarrow> ustring" where
  "ascii s \<equiv> map of_char s"

text \<open>
  Uppercasing of an ASCII letter.  This is also how \<open>re.IGNORECASE\<close> compares the
  letters A, C, G, T of the patterns of this program with a character: none of them has a
  case variant outside ASCII.
\<close>

definition ascii_upper :: "int \<Rightarrow> int" where
  "ascii_upper c = (if 97 \<le> c \<and> c \<le> 122 then c - 32 else c)"

text \<open>
  \<open>str.upper()\<close> uppercases character by character, by the full case mapping of Unicode:
  one character can become several (\<open>U+00DF\<close> becomes \<open>SS\<close>).  The tables list every
  code point above 127 whose uppercase form differs from itself, with that form
  (Unicode 14.0, as in CPython 3.11), in blocks by ascending code point.
\<close>

definition upper_block_0 :: "(int \<times> int list) list" where
  "upper_block_0 =
     [(181, [924]), (223, [83, 83]), (224, [192]), (225, [193]),
      (226, [194]), (227, [195]), (228, [196]), (229, [197]),
      (230, [198]), (231, [199]), (232, [200]), (233, [201]),
      (234, [202]), (235, [203]), (236, [204]), (237, [205]),
      (238, [206]), (239, [207]), (240, [208]), (241, [209]),
      (242, [210]), (243, [211]), (244, [212]), (245, [213]),
      (246, [214]), (248, [216]), (249, [217]), (250, [218]),
      (251, [219]), (252, [220]), (253, [221]), (254, [222])]"

definition upper_block_1 :: "(int \<times> int list) list" where
  "upper_block_1 =
     [(255, [376]), (257, [256]), (259, [258]), (261, [260]),
      (263, [262]), (265, [264]), (267, [266]), (269, [268]),
      (271, [270]), (273, [272]), (275, [274]), (277, [276]),
      (279, [278]), (281, [280]), (283, [282]), (285, [284]),
      (287, [286]), (289, [288]), (291, [290]), (293, [292]),
      (295, [294]), (297, [296]), (299, [298]), (301, [300]),
      (303, [302]), (305, [73]), (307, [306]), (309, [308]),
      (311, [310]), (314, [313]), (316, [315]), (318, [317])]"

definition upper_block_2 :: "(int \<times> int list) list" where
  "upper_block_2 =
     [(320, [319]), (322, [321]), (324, [323]), (326, [325]),
      (328, [327]), (329, [700, 78]), (331, [330]), (333, [332]),
      (335, [334]), (337, [336]), (339, [338]), (341, [340]),
      (343, [342]), (345, [344]), (347, [346]), (349, [348]),
      (351, [350]), (353, [352]), (355, [354]), (357, [356]),
      (359, [358]), (361, [360]), (363, [362]), (365, [364]),
      (367, [366]), (369, [368]), (371, [370]), (373, [372]),
      (375, [374]), (378, [377]), (380, [379]), (382, [381])]"

definition upper_block_3 :: "(int \<times> int list) list" where
  "upper_block_3 =
     [(383, [83]), (384, [579]), (387, [386]), (389, [388]),
      (392, [391]), (396, [395]), (402, [401]), (405, [502]),
      (409, [408]), (410, [573]), (414, [544]), (417, [416]),
      (419, [418]), (421, [420]), (424, [423]), (429, [428]),
      (432, [431]), (436, [435]), (438, [437]), (441, [440]),
      (445, [444]), (447, [503]), (453, [452]), (454, [452]),
      (456, [455]), (457, [455]), (459, [458]), (460, [458]),
      (462, [461]), (464, [463]), (466, [465]), (468, [467])]"

definition upper_block_4 :: "(int \<times> int list) list" where
  "upper_block_4 =
     [(470, [469]), (472, [471]), (474, [473]), (476, [475]),
      (477, [398]), (479, [478]), (481, [480]), (483, [482]),
      (485, [484]), (487, [486]), (489, [488]), (491, [490]),
      (493, [492]), (495, [494]), (496, [74, 780]), (498, [497]),
      (499, [497]), (501, [500]), (505, [504]), (507, [506]),
      (509, [508]), (511, [510]), (513, [512]), (515, [514]),
      (517, [516]), (519, [518]), (521, [520]), (523, [522]),
      (525, [524]), (527, [526]), (529, [528]), (531, [530])]"

definition upper_block_5 :: "(int \<times> int list) list" where
  "upper_block_5 =
     [(533, [532]), (535, [534]), (537, [536]), (539, [538]),
      (541, [540]), (543, [542]), (547, [546]), (549, [548]),
      (551, [550]), (553, [552]), (555, [554]), (557, [556]),
      (559, [558]), (561, [560]), (563, [562]), (572, [571]),
      (575, [11390]), (576, [11391]), (578, [577]), (583, [582]),
      (585, [584]), (587, [586]), (589, [588]), (591, [590]),
      (592, [11375]), (593, [11373]), (594, [11376]), (595, [385]),
      (596, [390]), (598, [393]), (599, [394]), (601, [399])]"

definition upper_block_6 :: "(int \<times> int list) list" where
  "upper_block_6 =
     [(603, [400]), (604, [42923]), (608, [403]), (609, [42924]),
      (611, [404]), (613, [42893]), (614, [42922]), (616, [407]),
      (617, [406]), (618, [42926]), (619, [11362]), (620, [42925]),
      (623, [412]), (625, [11374]), (626, [413]), (629, [415]),
      (637, [11364]), (640, [422]), (642, [42949]), (643, [425]),
      (647, [42929]), (648, [430]), (649, [580]), (650, [433]),
      (651, [434]), (652, [581]), (658, [439]), (669, [42930]),
      (670, [42928]), (837, [921]), (881, [880]), (883, [882])]"

definition upper_block_7 :: "(int \<times> int list) list" where
  "upper_block_7 =
     [(887, [886]), (891, [1021]), (892, [1022]), (893, [1023]),
      (912, [921, 776, 769]), (940, [902]), (941, [904]), (942, [905]),
      (943, [906]), (944, [933, 776, 769]), (945, [913]), (946, [914]),
      (947, [915]), (948, [916]), (949, [917]), (950, [918]),
      (951, [919]), (952, [920]), (953, [921]), (954, [922]),
      (955, [923]), (956, [924]), (957, [925]), (958, [926]),
      (959, [927]), (960, [928]), (961, [929]), (962, [931]),
      (963, [931]), (964, [932]), (965, [933]), (966, [934])]"

definition upper_block_8 :: "(int \<times> int list) list" where
  "upper_block_8 =
     [(967, [935]), (968, [936]), (969, [937]), (970, [938]),
      (971, [939]), (972, [908]), (973, [910]), (974, [911]),
      (976, [914]), (977, [920]), (981, [934]), (982, [928]),
      (983, [975]), (985, [984]), (987, [986]), (989, [988]),
      (991, [990]), (993, [992]), (995, [994]), (997, [996]),
      (999, [998]), (1001, [1000]), (1003, [1002]), (1005, [1004]),
      (1007, [1006]), (1008, [922]), (1009, [929]), (1010, [1017]),
      (1011, [895]), (1013, [917]), (1016, [1015]), (1019, [1018])]"

definition upper_block_9 :: "(int \<times> int list) list" where
  "upper_block_9 =
     [(1072, [1040]), (1073, [1041]), (1074, [1042]), (1075, [1043]),
      (1076, [1044]), (1077, [1045]), (1078, [1046]), (1079, [1047]),
      (1080, [1048]), (1081, [1049]), (1082, [1050]), (1083, [1051]),
      (1084, [1052]), (1085, [1053]), (1086, [1054]), (1087, [1055]),
      (1088, [1056]), (1089, [1057]), (1090, [1058]), (1091, [1059]),
      (1092, [1060]), (1093, [1061]), (1094, [1062]), (1095, [1063]),
      (1096, [1064]), (1097, [1065]), (1098, [1066]), (1099, [1067]),
      (1100, [1068]), (1101, [1069]), (1102, [1070]), (1103, [1071])]"

definition upper_block_10 :: "(int \<times> int list) list" where
  "upper_block_10 =
     [(1104, [1024]), (1105, [1025]), (1106, [1026]), (1107, [1027]),
      (1108, [1028]), (1109, [1029]), (1110, [1030]), (1111, [1031]),
      (1112, [1032]), (1113, [1033]), (1114, [1034]), (1115, [1035]),
      (1116, [1036]), (1117, [1037]), (1118, [1038]), (1119, [1039]),
      (1121, [1120]), (1123, [1122]), (1125, [1124]), (1127, [1126]),
      (1129, [1128]), (1131, [1130]), (1133, [1132]), (1135, [1134]),
      (1137, [1136]), (1139, [1138]), (1141, [1140]), (1143, [1142]),
      (1145, [1144]), (1147, [1146]), (1149, [1148]), (1151, [1150])]"

definition upper_block_11 :: "(int \<times> int list) list" where
  "upper_block_11 =
     [(1153, [1152]), (1163, [1162]), (1165, [1164]), (1167, [1166]),
      (1169, [1168]), (1171, [1170]), (1173, [1172]), (1175, [1174]),
      (1177, [1176]), (1179, [1178]), (1181, [1180]), (1183, [1182]),
      (1185, [1184]), (1187, [1186]), (1189, [1188]), (1191, [1190]),
      (1193, [1192]), (1195, [1194]), (1197, [1196]), (1199, [1198]),
      (1201, [1200]), (1203, [1202]), (1205, [1204]), (1207, [1206]),
      (1209, [1208]), (1211, [1210]), (1213, [1212]), (1215, [1214]),
      (1218, [1217]), (1220, [1219]), (1222, [1221]), (1224, [1223])]"

definition upper_block_12 :: "(int \<times> int list) list" where
  "upper_block_12 =
     [(1226, [1225]), (1228, [1227]), (1230, [1229]), (1231, [1216]),
      (1233, [1232]), (1235, [1234]), (1237, [1236]), (1239, [1238]),
      (1241, [1240]), (1243, [1242]), (1245, [1244]), (1247, [1246]),
      (1249, [1248]), (1251, [1250]), (1253, [1252]), (1255, [1254]),
      (1257, [1256]), (1259, [1258]), (1261, [1260]), (1263, [1262]),
      (1265, [1264]), (1267, [1266]), (1269, [1268]), (1271, [1270]),
      (1273, [1272]), (1275, [1274]), (1277, [1276]), (1279, [1278]),
      (1281, [1280]), (1283, [1282]), (1285, [1284]), (1287, [1286])]"

definition upper_block_13 :: "(int \<times> int list) list" where
  "upper_block_13 =
     [(1289, [1288]), (1291, [1290]), (1293, [1292]), (1295, [1294]),
      (1297, [1296]), (1299, [1298]), (1301, [1300]), (1303, [1302]),
      (1305, [1304]), (1307, [1306]), (1309, [1308]), (1311, [1310]),
      (1313, [1312]), (1315, [1314]), (1317, [1316]), (1319, [1318]),
      (1321, [1320]), (1323, [1322]), (1325, [1324]), (1327, [1326]),
      (1377, [1329]), (1378, [1330]), (1379, [1331]), (1380, [1332]),
      (1381, [1333]), (1382, [1334]), (1383, [1335]), (1384, [1336]),
      (1385, [1337]), (1386, [1338]), (1387, [1339]), (1388, [1340])]"

definition upper_block_14 :: "(int \<times> int list) list" where
  "upper_block_14 =
     [(1389, [1341]), (1390, [1342]), (1391, [1343]), (1392, [1344]),
      (1393, [1345]), (1394, [1346]), (1395, [1347]), (1396, [1348]),
      (1397, [1349]), (1398, [1350]), (1399, [1351]), (1400, [1352]),
      (1401, [1353]), (1402, [1354]), (1403, [1355]), (1404, [1356]),
      (1405, [1357]), (1406, [1358]), (1407, [1359]), (1408, [1360]),
      (1409, [1361]), (1410, [1362]), (1411, [1363]), (1412, [1364]),
      (1413, [1365]), (1414, [1366]), (1415, [1333, 1362]), (4304, [7312]),
      (4305, [7313]), (4306, [7314]), (4307, [7315]), (4308, [7316])]"

definition upper_block_15 :: "(int \<times> int list) list" where
  "upper_block_15 =
     [(4309, [7317]), (4310, [7318]), (4311, [7319]), (4312, [7320]),
      (4313, [7321]), (4314, [7322]), (4315, [7323]), (4316, [7324]),
      (4317, [7325]), (4318, [7326]), (4319, [7327]), (4320, [7328]),
      (4321, [7329]), (4322, [7330]), (4323, [7331]), (4324, [7332]),
      (4325, [7333]), (4326, [7334]), (4327, [7335]), (4328, [7336]),
      (4329, [7337]), (4330, [7338]), (4331, [7339]), (4332, [7340]),
      (4333, [7341]), (4334, [7342]), (4335, [7343]), (4336, [7344]),
      (4337, [7345]), (4338, [7346]), (4339, [7347]), (4340, [7348])]"

definition upper_block_16 :: "(int \<times> int list) list" where
  "upper_block_16 =
     [(4341, [7349]), (4342, [7350]), (4343, [7351]), (4344, [7352]),
      (4345, [7353]), (4346, [7354]), (4349, [7357]), (4350, [7358]),
      (4351, [7359]), (5112, [5104]), (5113, [5105]), (5114, [5106]),
      (5115, [5107]), (5116, [5108]), (5117, [5109]), (7296, [1042]),
      (7297, [1044]), (7298, [1054]), (7299, [1057]), (7300, [1058]),
      (7301, [1058]), (7302, [1066]), (7303, [1122]), (7304, [42570]),
      (7545, [42877]), (7549, [11363]), (7566, [42950]), (7681, [7680]),
      (7683, [7682]), (7685, [7684]), (7687, [7686]), (7689, [7688])]"

definition upper_block_17 :: "(int \<times> int list) list" where
  "upper_block_17 =
     [(7691, [7690]), (7693, [7692]), (7695, [7694]), (7697, [7696]),
      (7699, [7698]), (7701, [7700]), (7703, [7702]), (7705, [7704]),
      (7707, [7706]), (7709, [7708]), (7711, [7710]), (7713, [7712]),
      (7715, [7714]), (7717, [7716]), (7719, [7718]), (7721, [7720]),
      (7723, [7722]), (7725, [7724]), (7727, [7726]), (7729, [7728]),
      (7731, [7730]), (7733, [7732]), (7735, [7734]), (7737, [7736]),
      (7739, [7738]), (7741, [7740]), (7743, [7742]), (7745, [7744]),
      (7747, [7746]), (7749, [7748]), (7751, [7750]), (7753, [7752])]"

definition upper_block_18 :: "(int \<times> int list) list" where
  "upper_block_18 =
     [(7755, [7754]), (7757, [7756]), (7759, [7758]), (7761, [7760]),
      (7763, [7762]), (7765, [7764]), (7767, [7766]), (7769, [7768]),
      (7771, [7770]), (7773, [7772]), (7775, [7774]), (7777, [7776]),
      (7779, [7778]), (7781, [7780]), (7783, [7782]), (7785, [7784]),
      (7787, [7786]), (7789, [7788]), (7791, [7790]), (7793, [7792]),
      (7795, [7794]), (7797, [7796]), (7799, [7798]), (7801, [7800]),
      (7803, [7802]), (7805, [7804]), (7807, [7806]), (7809, [7808]),
      (7811, [7810]), (7813, [7812]), (7815, [7814]), (7817, [7816])]"

definition upper_block_19 :: "(int \<times> int list) list" where
  "upper_block_19 =
     [(7819, [7818]), (7821, [7820]), (7823, [7822]), (7825, [7824]),
      (7827, [7826]), (7829, [7828]), (7830, [72, 817]), (7831, [84, 776]),
      (7832, [87, 778]), (7833, [89, 778]), (7834, [65, 702]), (7835, [7776]),
      (7841, [7840]), (7843, [7842]), (7845, [7844]), (7847, [7846]),
      (7849, [7848]), (7851, [7850]), (7853, [7852]), (7855, [7854]),
      (7857, [7856]), (7859, [7858]), (7861, [7860]), (7863, [7862]),
      (7865, [7864]), (7867, [7866]), (7869, [7868]), (7871, [7870]),
      (7873, [7872]), (7875, [7874]), (7877, [7876]), (7879, [7878])]"

definition upper_block_20 :: "(int \<times> int list) list" where
  "upper_block_20 =
     [(7881, [7880]), (7883, [7882]), (7885, [7884]), (7887, [7886]),
      (7889, [7888]), (7891, [7890]), (7893, [7892]), (7895, [7894]),
      (7897, [7896]), (7899, [7898]), (7901, [7900]), (7903, [7902]),
      (7905, [7904]), (7907, [7906]), (7909, [7908]), (7911, [7910]),
      (7913, [7912]), (7915, [7914]), (7917, [7916]), (7919, [7918]),
      (7921, [7920]), (7923, [7922]), (7925, [7924]), (7927, [7926]),
      (7929, [7928]), (7931, [7930]), (7933, [7932]), (7935, [7934]),
      (7936, [7944]), (7937, [7945]), (7938, [7946]), (7939, [7947])]"

definition upper_block_21 :: "(int \<times> int list) list" where
  "upper_block_21 =
     [(7940, [7948]), (7941, [7949]), (7942, [7950]), (7943, [7951]),
      (7952, [7960]), (7953, [7961]), (7954, [7962]), (7955, [7963]),
      (7956, [7964]), (7957, [7965]), (7968, [7976]), (7969, [7977]),
      (7970, [7978]), (7971, [7979]), (7972, [7980]), (7973, [7981]),
      (7974, [7982]), (7975, [7983]), (7984, [7992]), (7985, [7993]),
      (7986, [7994]), (7987, [7995]), (7988, [7996]), (7989, [7997]),
      (7990, [7998]), (7991, [7999]), (8000, [8008]), (8001, [8009]),
      (8002, [8010]), (8003, [8011]), (8004, [8012]), (8005, [8013])]"

definition upper_block_22 :: "(int \<times> int list) list" where
  "upper_block_22 =
     [(8016, [933, 787]), (8017, [8025]), (8018, [933, 787, 768]), (8019, [8027]),
      (8020, [933, 787, 769]), (8021, [8029]), (8022, [933, 787, 834]), (8023, [8031]),
      (8032, [8040]), (8033, [8041]), (8034, [8042]), (8035, [8043]),
      (8036, [8044]), (8037, [8045]), (8038, [8046]), (8039, [8047]),
      (8048, [8122]), (8049, [8123]), (8050, [8136]), (8051, [8137]),
      (8052, [8138]), (8053, [8139]), (8054, [8154]), (8055, [8155]),
      (8056, [8184]), (8057, [8185]), (8058, [8170]), (8059, [8171]),
      (8060, [8186]), (8061, [8187]), (8064, [7944, 921]), (8065, [7945, 921])]"

definition upper_block_23 :: "(int \<times> int list) list" where
  "upper_block_23 =
     [(8066, [7946, 921]), (8067, [7947, 921]), (8068, [7948, 921]), (8069, [7949, 921]),
      (8070, [7950, 921]), (8071, [7951, 921]), (8072, [7944, 921]), (8073, [7945, 921]),
      (8074, [7946, 921]), (8075, [7947, 921]), (8076, [7948, 921]), (8077, [7949, 921]),
      (8078, [7950, 921]), (8079, [7951, 921]), (8080, [7976, 921]), (8081, [7977, 921]),
      (8082, [7978, 921]), (8083, [7979, 921]), (8084, [7980, 921]), (8085, [7981, 921]),
      (8086, [7982, 921]), (8087, [7983, 921]), (8088, [7976, 921]), (8089, [7977, 921]),
      (8090, [7978, 921]), (8091, [7979, 921]), (8092, [7980, 921]), (8093, [7981, 921]),
      (8094, [7982, 921]), (8095, [7983, 921]), (8096, [8040, 921]), (8097, [8041, 921])]"

definition upper_block_24 :: "(int \<times> int list) list" where
  "upper_block_24 =
     [(8098, [8042, 921]), (8099, [8043, 921]), (8100, [8044, 921]), (8101, [8045, 921]),
      (8102, [8046, 921]), (8103, [8047, 921]), (8104, [8040, 921]), (8105, [8041, 921]),
      (8106, [8042, 921]), (8107, [8043, 921]), (8108, [8044, 921]), (8109, [8045, 921]),
      (8110, [8046, 921]), (8111, [8047, 921]), (8112, [8120]), (8113, [8121]),
      (8114, [8122, 921]), (8115, [913, 921]), (8116, [902, 921]), (8118, [913, 834]),
      (8119, [913, 834, 921]), (8124, [913, 921]), (8126, [921]), (8130, [8138, 921]),
      (8131, [919, 921]), (8132, [905, 921]), (8134, [919, 834]), (8135, [919, 834, 921]),
      (8140, [919, 921]), (8144, [8152]), (8145, [8153]), (8146, [921, 776, 768])]"

definition upper_block_25 :: "(int \<times> int list) list" where
  "upper_block_25 =
     [(8147, [921, 776, 769]), (8150, [921, 834]), (8151, [921, 776, 834]), (8160, [8168]),
      (8161, [8169]), (8162, [933, 776, 768]), (8163, [933, 776, 769]), (8164, [929, 787]),
      (8165, [8172]), (8166, [933, 834]), (8167, [933, 776, 834]), (8178, [8186, 921]),
      (8179, [937, 921]), (8180, [911, 921]), (8182, [937, 834]), (8183, [937, 834, 921]),
      (8188, [937, 921]), (8526, [8498]), (8560, [8544]), (8561, [8545]),
      (8562, [8546]), (8563, [8547]), (8564, [8548]), (8565, [8549]),
      (8566, [8550]), (8567, [8551]), (8568, [8552]), (8569, [8553]),
      (8570, [8554]), (8571, [8555]), (8572, [8556]), (8573, [8557])]"

definition upper_block_26 :: "(int \<times> int list) list" where
  "upper_block_26 =
     [(8574, [8558]), (8575, [8559]), (8580, [8579]), (9424, [9398]),
      (9425, [9399]), (9426, [9400]), (9427, [9401]), (9428, [9402]),
      (9429, [9403]), (9430, [9404]), (9431, [9405]), (9432, [9406]),
      (9433, [9407]), (9434, [9408]), (9435, [9409]), (9436, [9410]),
      (9437, [9411]), (9438, [9412]), (9439, [9413]), (9440, [9414]),
      (9441, [9415]), (9442, [9416]), (9443, [9417]), (9444, [9418]),
      (9445, [9419]), (9446, [9420]), (9447, [9421]), (9448, [9422]),
      (9449, [9423]), (11312, [11264]), (11313, [11265]), (11314, [11266])]"

definition upper_block_27 :: "(int \<times> int list) list" where
  "upper_block_27 =
     [(11315, [11267]), (11316, [11268]), (11317, [11269]), (11318, [11270]),
      (11319, [11271]), (11320, [11272]), (11321, [11273]), (11322, [11274]),
      (11323, [11275]), (11324, [11276]), (11325, [11277]), (11326, [11278]),
      (11327, [11279]), (11328, [11280]), (11329, [11281]), (11330, [11282]),
      (11331, [11283]), (11332, [11284]), (11333, [11285]), (11334, [11286]),
      (11335, [11287]), (11336, [11288]), (11337, [11289]), (11338, [11290]),
      (11339, [11291]), (11340, [11292]), (11341, [11293]), (11342, [11294]),
      (11343, [11295]), (11344, [11296]), (11345, [11297]), (11346, [11298])]"

definition upper_block_28 :: "(int \<times> int list) list" where
  "upper_block_28 =
     [(11347, [11299]), (11348, [11300]), (11349, [11301]), (11350, [11302]),
      (11351, [11303]), (11352, [11304]), (11353, [11305]), (11354, [11306]),
      (11355, [11307]), (11356, [11308]), (11357, [11309]), (11358, [11310]),
      (11359, [11311]), (11361, [11360]), (11365, [570]), (11366, [574]),
      (11368, [11367]), (11370, [11369]), (11372, [11371]), (11379, [11378]),
      (11382, [11381]), (11393, [11392]), (11395, [11394]), (11397, [11396]),
      (11399, [11398]), (11401, [11400]), (11403, [11402]), (11405, [11404]),
      (11407, [11406]), (11409, [11408]), (11411, [11410]), (11413, [11412])]"

definition upper_block_29 :: "(int \<times> int list) list" where
  "upper_block_29 =
     [(11415, [11414]), (11417, [11416]), (11419, [11418]), (11421, [11420]),
      (11423, [11422]), (11425, [11424]), (11427, [11426]), (11429, [11428]),
      (11431, [11430]), (11433, [11432]), (11435, [11434]), (11437, [11436]),
      (11439, [11438]), (11441, [11440]), (11443, [11442]), (11445, [11444]),
      (11447, [11446]), (11449, [11448]), (11451, [11450]), (11453, [11452]),
      (11455, [11454]), (11457, [11456]), (11459, [11458]), (11461, [11460]),
      (11463, [11462]), (11465, [11464]), (11467, [11466]), (11469, [11468]),
      (11471, [11470]), (11473, [11472]), (11475, [11474]), (11477, [11476])]"

definition upper_block_30 :: "(int \<times> int list) list" where
  "upper_block_30 =
     [(11479, [11478]), (11481, [11480]), (11483, [11482]), (11485, [11484]),
      (11487, [11486]), (11489, [11488]), (11491, [11490]), (11500, [11499]),
      (11502, [11501]), (11507, [11506]), (11520, [4256]), (11521, [4257]),
      (11522, [4258]), (11523, [4259]), (11524, [4260]), (11525, [4261]),
      (11526, [4262]), (11527, [4263]), (11528, [4264]), (11529, [4265]),
      (11530, [4266]), (11531, [4267]), (11532, [4268]), (11533, [4269]),
      (11534, [4270]), (11535, [4271]), (11536, [4272]), (11537, [4273]),
      (11538, [4274]), (11539, [4275]), (11540, [4276]), (11541, [4277])]"

definition upper_block_31 :: "(int \<times> int list) list" where
  "upper_block_31 =
     [(11542, [4278]), (11543, [4279]), (11544, [4280]), (11545, [4281]),
      (11546, [4282]), (11547, [4283]), (11548, [4284]), (11549, [4285]),
      (11550, [4286]), (11551, [4287]), (11552, [4288]), (11553, [4289]),
      (11554, [4290]), (11555, [4291]), (11556, [4292]), (11557, [4293]),
      (11559, [4295]), (11565, [4301]), (42561, [42560]), (42563, [42562]),
      (42565, [42564]), (42567, [42566]), (42569, [42568]), (42571, [42570]),
      (42573, [42572]), (42575, [42574]), (42577, [42576]), (42579, [42578]),
      (42581, [42580]), (42583, [42582]), (42585, [42584]), (42587, [42586])]"

definition upper_block_32 :: "(int \<times> int list) list" where
  "upper_block_32 =
     [(42589, [42588]), (42591, [42590]), (42593, [42592]), (42595, [42594]),
      (42597, [42596]), (42599, [42598]), (42601, [42600]), (42603, [42602]),
      (42605, [42604]), (42625, [42624]), (42627, [42626]), (42629, [42628]),
      (42631, [42630]), (42633, [42632]), (42635, [42634]), (42637, [42636]),
      (42639, [42638]), (42641, [42640]), (42643, [42642]), (42645, [42644]),
      (42647, [42646]), (42649, [42648]), (42651, [42650]), (42787, [42786]),
      (42789, [42788]), (42791, [42790]), (42793, [42792]), (42795, [42794]),
      (42797, [42796]), (42799, [42798]), (42803, [42802]), (42805, [42804])]"

definition upper_block_33 :: "(int \<times> int list) list" where
  "upper_block_33 =
     [(42807, [42806]), (42809, [42808]), (42811, [42810]), (42813, [42812]),
      (42815, [42814]), (42817, [42816]), (42819, [42818]), (42821, [42820]),
      (42823, [42822]), (42825, [42824]), (42827, [42826]), (42829, [42828]),
      (42831, [42830]), (42833, [42832]), (42835, [42834]), (42837, [42836]),
      (42839, [42838]), (42841, [42840]), (42843, [42842]), (42845, [42844]),
      (42847, [42846]), (42849, [42848]), (42851, [42850]), (42853, [42852]),
      (42855, [42854]), (42857, [42856]), (42859, [42858]), (42861, [42860]),
      (42863, [42862]), (42874, [42873]), (42876, [42875]), (42879, [42878])]"

definition upper_block_34 :: "(int \<times> int list) list" where
  "upper_block_34 =
     [(42881, [42880]), (42883, [42882]), (42885, [42884]), (42887, [42886]),
      (42892, [42891]), (42897, [42896]), (42899, [42898]), (42900, [42948]),
      (42903, [42902]), (42905, [42904]), (42907, [42906]), (42909, [42908]),
      (42911, [42910]), (42913, [42912]), (42915, [42914]), (42917, [42916]),
      (42919, [42918]), (42921, [42920]), (42933, [42932]), (42935, [42934]),
      (42937, [42936]), (42939, [42938]), (42941, [42940]), (42943, [42942]),
      (42945, [42944]), (42947, [42946]), (42952, [42951]), (42954, [42953]),
      (42961, [42960]), (42967, [42966]), (42969, [42968]), (42998, [42997])]"

definition upper_block_35 :: "(int \<times> int list) list" where
  "upper_block_35 =
     [(43859, [42931]), (43888, [5024]), (43889, [5025]), (43890, [5026]),
      (43891, [5027]), (43892, [5028]), (43893, [5029]), (43894, [5030]),
      (43895, [5031]), (43896, [5032]), (43897, [5033]), (43898, [5034]),
      (43899, [5035]), (43900, [5036]), (43901, [5037]), (43902, [5038]),
      (43903, [5039]), (43904, [5040]), (43905, [5041]), (43906, [5042]),
      (43907, [5043]), (43908, [5044]), (43909, [5045]), (43910, [5046]),
      (43911, [5047]), (43912, [5048]), (43913, [5049]), (43914, [5050]),
      (43915, [5051]), (43916, [5052]), (43917, [5053]), (43918, [5054])]"

definition upper_block_36 :: "(int \<times> int list) list" where
  "upper_block_36 =
     [(43919, [5055]), (43920, [5056]), (43921, [5057]), (43922, [5058]),
      (43923, [5059]), (43924, [5060]), (43925, [5061]), (43926, [5062]),
      (43927, [5063]), (43928, [5064]), (43929, [5065]), (43930, [5066]),
      (43931, [5067]), (43932, [5068]), (43933, [5069]), (43934, [5070]),
      (43935, [5071]), (43936, [5072]), (43937, [5073]), (43938, [5074]),
      (43939, [5075]), (43940, [5076]), (43941, [5077]), (43942, [5078]),
      (43943, [5079]), (43944, [5080]), (43945, [5081]), (43946, [5082]),
      (43947, [5083]), (43948, [5084]), (43949, [5085]), (43950, [5086])]"

definition upper_block_37 :: "(int \<times> int list) list" where
  "upper_block_37 =
     [(43951, [5087]), (43952, [5088]), (43953, [5089]), (43954, [5090]),
      (43955, [5091]), (43956, [5092]), (43957, [5093]), (43958, [5094]),
      (43959, [5095]), (43960, [5096]), (43961, [5097]), (43962, [5098]),
      (43963, [5099]), (43964, [5100]), (43965, [5101]), (43966, [5102]),
      (43967, [5103]), (64256, [70, 70]), (64257, [70, 73]), (64258, [70, 76]),
      (64259, [70, 70, 73]), (64260, [70, 70, 76]), (64261, [83, 84]), (64262, [83, 84]),
      (64275, [1348, 1350]), (64276, [1348, 1333]), (64277, [1348, 1339]), (64278, [1358, 1350]),
      (64279, [1348, 1341]), (65345, [65313]), (65346, [65314]), (65347, [65315])]"

definition upper_block_38 :: "(int \<times> int list) list" where
  "upper_block_38 =
     [(65348, [65316]), (65349, [65317]), (65350, [65318]), (65351, [65319]),
      (65352, [65320]), (65353, [65321]), (65354, [65322]), (65355, [65323]),
      (65356, [65324]), (65357, [65325]), (65358, [65326]), (65359, [65327]),
      (65360, [65328]), (65361, [65329]), (65362, [65330]), (65363, [65331]),
      (65364, [65332]), (65365, [65333]), (65366, [65334]), (65367, [65335]),
      (65368, [65336]), (65369, [65337]), (65370, [65338]), (66600, [66560]),
      (66601, [66561]), (66602, [66562]), (66603, [66563]), (66604, [66564]),
      (66605, [66565]), (66606, [66566]), (66607, [66567]), (66608, [66568])]"

definition upper_block_39 :: "(int \<times> int list) list" where
  "upper_block_39 =
     [(66609, [66569]), (66610, [66570]), (66611, [66571]), (66612, [66572]),
      (66613, [66573]), (66614, [66574]), (66615, [66575]), (66616, [66576]),
      (66617, [66577]), (66618, [66578]), (66619, [66579]), (66620, [66580]),
      (66621, [66581]), (66622, [66582]), (66623, [66583]), (66624, [66584]),
      (66625, [66585]), (66626, [66586]), (66627, [66587]), (66628, [66588]),
      (66629, [66589]), (66630, [66590]), (66631, [66591]), (66632, [66592]),
      (66633, [66593]), (66634, [66594]), (66635, [66595]), (66636, [66596]),
      (66637, [66597]), (66638, [66598]), (66639, [66599]), (66776, [66736])]"

definition upper_block_40 :: "(int \<times> int list) list" where
  "upper_block_40 =
     [(66777, [66737]), (66778, [66738]), (66779, [66739]), (66780, [66740]),
      (66781, [66741]), (66782, [66742]), (66783, [66743]), (66784, [66744]),
      (66785, [66745]), (66786, [66746]), (66787, [66747]), (66788, [66748]),
      (66789, [66749]), (66790, [66750]), (66791, [66751]), (66792, [66752]),
      (66793, [66753]), (66794, [66754]), (66795, [66755]), (66796, [66756]),
      (66797, [66757]), (66798, [66758]), (66799, [66759]), (66800, [66760]),
      (66801, [66761]), (66802, [66762]), (66803, [66763]), (66804, [66764]),
      (66805, [66765]), (66806, [66766]), (66807, [66767]), (66808, [66768])]"

definition upper_block_41 :: "(int \<times> int list) list" where
  "upper_block_41 =
     [(66809, [66769]), (66810, [66770]), (66811, [66771]), (66967, [66928]),
      (66968, [66929]), (66969, [66930]), (66970, [66931]), (66971, [66932]),
      (66972, [66933]), (66973, [66934]), (66974, [66935]), (66975, [66936]),
      (66976, [66937]), (66977, [66938]), (66979, [66940]), (66980, [66941]),
      (66981, [66942]), (66982, [66943]), (66983, [66944]), (66984, [66945]),
      (66985, [66946]), (66986, [66947]), (66987, [66948]), (66988, [66949]),
      (66989, [66950]), (66990, [66951]), (66991, [66952]), (66992, [66953]),
      (66993, [66954]), (66995, [66956]), (66996, [66957]), (66997, [66958])]"

definition upper_block_42 :: "(int \<times> int list) list" where
  "upper_block_42 =
     [(66998, [66959]), (66999, [66960]), (67000, [66961]), (67001, [66962]),
      (67003, [66964]), (67004, [66965]), (68800, [68736]), (68801, [68737]),
      (68802, [68738]), (68803, [68739]), (68804, [68740]), (68805, [68741]),
      (68806, [68742]), (68807, [68743]), (68808, [68744]), (68809, [68745]),
      (68810, [68746]), (68811, [68747]), (68812, [68748]), (68813, [68749]),
      (68814, [68750]), (68815, [68751]), (68816, [68752]), (68817, [68753]),
      (68818, [68754]), (68819, [68755]), (68820, [68756]), (68821, [68757]),
      (68822, [68758]), (68823, [68759]), (68824, [68760]), (68825, [68761])]"

definition upper_block_43 :: "(int \<times> int list) list" where
  "upper_block_43 =
     [(68826, [68762]), (68827, [68763]), (68828, [68764]), (68829, [68765]),
      (68830, [68766]), (68831, [68767]), (68832, [68768]), (68833, [68769]),
      (68834, [68770]), (68835, [68771]), (68836, [68772]), (68837, [68773]),
      (68838, [68774]), (68839, [68775]), (68840, [68776]), (68841, [68777]),
      (68842, [68778]), (68843, [68779]), (68844, [68780]), (68845, [68781]),
      (68846, [68782]), (68847, [68783]), (68848, [68784]), (68849, [68785]),
      (68850, [68786]), (71872, [71840]), (71873, [71841]), (71874, [71842]),
      (71875, [71843]), (71876, [71844]), (71877, [71845]), (71878, [71846])]"

definition upper_block_44 :: "(int \<times> int list) list" where
  "upper_block_44 =
     [(71879, [71847]), (71880, [71848]), (71881, [71849]), (71882, [71850]),
      (71883, [71851]), (71884, [71852]), (71885, [71853]), (71886, [71854]),
      (71887, [71855]), (71888, [71856]), (71889, [71857]), (71890, [71858]),
      (71891, [71859]), (71892, [71860]), (71893, [71861]), (71894, [71862]),
      (71895, [71863]), (71896, [71864]), (71897, [71865]), (71898, [71866]),
      (71899, [71867]), (71900, [71868]), (71901, [71869]), (71902, [71870]),
      (71903, [71871]), (93792, [93760]), (93793, [93761]), (93794, [93762]),
      (93795, [93763]), (93796, [93764]), (93797, [93765]), (93798, [93766])]"

definition upper_block_45 :: "(int \<times> int list) list" where
  "upper_block_45 =
     [(93799, [93767]), (93800, [93768]), (93801, [93769]), (93802, [93770]),
      (93803, [93771]), (93804, [93772]), (93805, [93773]), (93806, [93774]),
      (93807, [93775]), (93808, [93776]), (93809, [93777]), (93810, [93778]),
      (93811, [93779]), (93812, [93780]), (93813, [93781]), (93814, [93782]),
      (93815, [93783]), (93816, [93784]), (93817, [93785]), (93818, [93786]),
      (93819, [93787]), (93820, [93788]), (93821, [93789]), (93822, [93790]),
      (93823, [93791]), (125218, [125184]), (125219, [125185]), (125220, [125186]),
      (125221, [125187]), (125222, [125188]), (125223, [125189]), (125224, [125190])]"

definition upper_block_46 :: "(int \<times> int list) list" where
  "upper_block_46 =
     [(125225, [125191]), (125226, [125192]), (125227, [125193]), (125228, [125194]),
      (125229, [125195]), (125230, [125196]), (125231, [125197]), (125232, [125198]),
      (125233, [125199]), (125234, [125200]), (125235, [125201]), (125236, [125202]),
      (125237, [125203]), (125238, [125204]), (125239, [125205]), (125240, [125206]),
      (125241, [125207]), (125242, [125208]), (125243, [125209]), (125244, [125210]),
      (125245, [125211]), (125246, [125212]), (125247, [125213]), (125248, [125214]),
      (125249, [125215]), (125250, [125216]), (125251, [125217])]"

definition upper_lookup :: "int \<Rightarrow> int list option" where
  "upper_lookup c =
     (if c < 255 then map_of upper_block_0 c
      else if c < 320 then map_of upper_block_1 c
      else if c < 383 then map_of upper_block_2 c
      else if c < 470 then map_of upper_block_3 c
      else if c < 533 then map_of upper_block_4 c
      else if c < 603 then map_of upper_block_5 c
      else if c < 887 then map_of upper_block_6 c
      else if c < 967 then map_of upper_block_7 c
      else if c < 1072 then map_of upper_block_8 c
      else if c < 1104 then map_of upper_block_9 c
      else if c < 1153 then map_of upper_block_10 c
      else if c < 1226 then map_of upper_block_11 c
      else if c < 1289 then map_of upper_block_12 c
      else if c < 1389 then map_of upper_block_13 c
      else if c < 4309 then map_of upper_block_14 c
      else if c < 4341 then map_of upper_block_15 c
      else if c < 7691 then map_of upper_block_16 c
      else if c < 7755 then map_of upper_block_17 c
      else if c < 7819 then map_of upper_block_18 c
      else if c < 7881 then map_of upper_block_19 c
      else if c < 7940 then map_of upper_block_20 c
      else if c < 8016 then map_of upper_block_21 c
      else if c < 8066 then map_of upper_block_22 c
      else if c < 8098 then map_of upper_block_23 c
      else if c < 8147 then map_of upper_block_24 c
      else if c < 8574 then map_of upper_block_25 c
      else if c < 11315 then map_of upper_block_26 c
      else if c < 11347 then map_of upper_block_27 c
      else if c < 11415 then map_of upper_block_28 c
      else if c < 11479 then map_of upper_block_29 c
      else if c < 11542 then map_of upper_block_30 c
      else if c < 42589 then map_of upper_block_31 c
      else if c < 42807 then map_of upper_block_32 c
      else if c < 42881 then map_of upper_block_33 c
      else if c < 43859 then map_of upper_block_34 c
      else if c < 43919 then map_of upper_block_35 c
      else if c < 43951 then map_of upper_block_36 c
      else if c < 65348 then map_of upper_block_37 c
      else if c < 66609 then map_of upper_block_38 c
      else if c < 66777 then map_of upper_block_39 c
      else if c < 66809 then map_of upper_block_40 c
      else if c < 66998 then map_of upper_block_41 c
      else if c < 68826 then map_of upper_block_42 c
      else if c < 71879 then map_of upper_block_43 c
      else if c < 93799 then map_of upper_block_44 c
      else if c < 125225 then map_of upper_block_45 c
      else map_of upper_block_46 c)"

definition upper_char :: "int \<Rightarrow> ustring" where
  "upper_char c =
     (if c < 128 then [ascii_upper c]
      else case upper_lookup c of Some u \<Rightarrow> u | None \<Rightarrow> [c])"

definition upper :: "ustring \<Rightarrow> ustring" where
  "upper s = concat (map upper_char s)"

text \<open>\<open>sep.join(parts)\<close>.\<close>

fun str_join :: "ustring \<Rightarrow> ustring list \<Rightarrow> ustring" where
  "str_join sep [] = []"
| "str_join sep [x] = x"
| "str_join sep (x # y # ys) = x @ sep @ str_join sep (y # ys)"

text \<open>
  \<open>s.find(sub, start)\<close> for \<open>start \<ge> 0\<close>: the lowest index \<open>\<ge> start\<close> at which
  \<open>sub\<close> occurs in \<open>s\<close>; \<open>None\<close> stands for the result \<open>-1\<close>.
\<close>

function str_find :: "ustring \<Rightarrow> ustring \<Rightarrow> nat \<Rightarrow> nat option" where
  "str_find s sub start =
     (if length s < start + length sub then None
      else if take (length sub) (drop start s) = sub then Some start
      else str_find s sub (Suc start))"
  by pat_completeness auto
termination
proof (relation "measure (\<lambda>(s, sub, start). length s - start)")
  show "wf (measure (\<lambda>(s, sub, start). length s - start))" by simp
next
  fix s sub :: ustring and start :: nat
  assume room: "\<not> length s < start + length sub"
    and miss: "take (length sub) (drop start s) \<noteq> sub"
  have "start < length s"
  proof (rule ccontr)
    assume "\<not> start < length s"
    with room have "length sub = 0" by arith
    with miss show False by simp
  qed
  then show "((s, sub, Suc start), (s, sub, start)) \<in> measure (\<lambda>(s, sub, start). length s - start)"
    by simp
qed

declare str_find.simps [simp del]

section \<open>markers\_db.py\<close>

text \<open>
  An entry of the markers database is the dictionary built by \<open>parse_markers_tab\<close>, with
  the three keys \<open>category\<close>, \<open>name\<close> and \<open>recognition\<close>.  The database is a dictionary
  from short names to entries; it is modelled as an association list in insertion order,
  since \<open>get_restriction_site_sequence\<close> iterates over its items.
\<close>

record marker_entry =
  category :: ustring
  name :: ustring
  recognition :: ustring

type_synonym markers_db = "(ustring \<times> marker_entry) list"

definition is_base :: "int \<Rightarrow> bool" where
  "is_base c \<longleftrightarrow> c \<in> set (ascii ''ATCG'')"

text \<open>
  \<open>re.search(r'([ATCG]{4,})', text)\<close>: the leftmost position from which at least four
  characters of the class follow; the greedy quantifier takes the whole run.
\<close>

fun re_search_site :: "ustring \<Rightarrow> ustring option" where
  "re_search_site [] = None"
| "re_search_site (c # cs) =
     (let run = takeWhile is_base (c # cs)
      in if 4 \<le> length run then Some run else re_search_site cs)"

definition known_sites :: "(ustring \<times> ustring) list" where
  "known_sites =
     [((ascii ''ECORI''), (ascii ''GAATTC'')),
      ((ascii ''BAMHI''), (ascii ''GGATCC'')),
      ((ascii ''HINDIII''), (ascii ''AAGCTT'')),
      ((ascii ''PSTI''), (ascii ''CTGCAG'')),
      ((ascii ''KPRI''), (ascii ''GGTACC'')),
      ((ascii ''SACI''), (ascii ''GAGCTC'')),
      ((ascii ''SALI''), (ascii ''GTCGAC'')),
      ((ascii ''XBAI''), (ascii ''TCTAGA'')),
      ((ascii ''NOTI''), (ascii ''GCGGCCGC'')),
      ((ascii ''SMAI''), (ascii ''CCCGGG'')),
      ((ascii ''SPHI''), (ascii ''GCATGC''))]"

text \<open>The loop \<open>for key, value in markers_db.items()\<close> of the case-insensitive match.\<close>

fun ci_match :: "ustring \<Rightarrow> markers_db \<Rightarrow> ustring option" where
  "ci_match enzyme_name [] = None"
| "ci_match enzyme_name ((key, v) # rest) =
     (if upper key = upper enzyme_name
      then (case re_search_site (upper (recognition v)) of
              Some m \<Rightarrow> Some m
            | None \<Rightarrow> ci_match enzyme_name rest)
      else ci_match enzyme_name rest)"

definition exact_match :: "ustring \<Rightarrow> markers_db \<Rightarrow> ustring option" where
  "exact_match enzyme_name db =
     (case map_of db enzyme_name of
        Some v \<Rightarrow> re_search_site (upper (recognition v))
      | None \<Rightarrow> None)"

definition get_restriction_site_sequence :: "ustring \<Rightarrow> markers_db \<Rightarrow> ustring option" where
  "get_restriction_site_sequence enzyme_name db =
     (case exact_match enzyme_name db of
        Some m \<Rightarrow> Some m
      | None \<Rightarrow>
          (case ci_match enzyme_name db of
             Some m \<Rightarrow> Some m
           | None \<Rightarrow> map_of known_sites (upper enzyme_name)))"

section \<open>restriction\_handler.py\<close>

text \<open>The \<open>while True\<close> loop of \<open>find_restriction_sites\<close>.\<close>

lemma str_find_Some_bounds:
  "str_find s sub start = Some pos \<Longrightarrow> start \<le> pos \<and> pos + length sub \<le> length s"
proof (induction s sub start rule: str_find.induct)
  case (1 s sub start)
  show ?case
  proof (cases "length s < start + length sub")
    case True
    with "1.prems" show ?thesis by (simp add: str_find.simps [of s sub start])
  next
    case False
    show ?thesis
    proof (cases "take (length sub) (drop start s) = sub")
      case True
      with False "1.prems" show ?thesis by (simp add: str_find.simps [of s sub start])
    next
      case miss: False
      with False "1.prems" have "str_find s sub (Suc start) = Some pos" by (simp add: str_find.simps [of s sub start])
      with "1.IH" [OF False miss] show ?thesis by (simp add: str_find.simps [of s sub start])
    qed
  qed
qed

function find_loop :: "ustring \<Rightarrow> ustring \<Rightarrow> nat \<Rightarrow> nat list \<Rightarrow> nat list" where
  "find_loop seq_upper site_upper start positions =
     (case str_find seq_upper site_upper start of
        None \<Rightarrow> positions
      | Some pos \<Rightarrow> find_loop seq_upper site_upper (pos + 1) (positions @ [pos]))"
  by pat_completeness auto
termination
proof (relation "measure (\<lambda>(s, sub, start, positions). Suc (length s) - start)")
  show "wf (measure (\<lambda>(s, sub, start, positions). Suc (length s) - start))" by simp
next
  fix seq_upper site_upper :: ustring and start pos :: nat and positions :: "nat list"
  assume "str_find seq_upper site_upper start = Some pos"
  then have "start \<le> pos \<and> pos + length site_upper \<le> length seq_upper"
    by (rule str_find_Some_bounds)
  then have "Suc (length seq_upper) - (pos + 1) < Suc (length seq_upper) - start"
    by arith
  then show "((seq_upper, site_upper, pos + 1, positions @ [pos]), (seq_upper, site_upper, start, positions))
      \<in> measure (\<lambda>(s, sub, start, positions). Suc (length s) - start)"
    by simp
qed

declare find_loop.simps [simp del]

text \<open>The search of \<open>find_restriction_sites\<close> once the recognition sequence is known.\<close>

definition find_occurrences :: "ustring \<Rightarrow> ustring \<Rightarrow> nat list" where
  "find_occurrences sequence site_sequence =
     (let seq_upper = upper sequence; site_upper = upper site_sequence
      in find_loop seq_upper site_upper 0 [])"

definition find_restriction_sites :: "ustring \<Rightarrow> ustring \<Rightarrow> markers_db \<Rightarrow> nat list" where
  "find_restriction_sites sequence enzyme_name db =
     (case get_restriction_site_sequence enzyme_name db of
        None \<Rightarrow> []
      | Some site_sequence \<Rightarrow>
          if site_sequence = [] then []
          else find_occurrences sequence site_sequence)"

text \<open>The inner loops of \<open>delete_restriction_sites\<close> that fill the set \<open>sites_to_mutate\<close>.\<close>

definition mark_site :: "nat \<Rightarrow> nat \<Rightarrow> nat set \<Rightarrow> nat set" where
  "mark_site pos n sites_to_mutate = fold (\<lambda>i acc. insert (pos + i) acc) [0..<n] sites_to_mutate"

definition mark_enzyme :: "ustring \<Rightarrow> markers_db \<Rightarrow> ustring \<Rightarrow> nat set \<Rightarrow> nat set" where
  "mark_enzyme sequence db enzyme sites_to_mutate =
     (let positions = find_restriction_sites sequence enzyme db
      in case get_restriction_site_sequence enzyme db of
           None \<Rightarrow> sites_to_mutate
         | Some site_seq \<Rightarrow>
             if site_seq = [] then sites_to_mutate
             else fold (\<lambda>pos acc. mark_site pos (length site_seq) acc) positions sites_to_mutate)"

text \<open>One round of the mutation loop, on the character list \<open>result\<close>.\<close>

definition mutate_base :: "nat \<Rightarrow> ustring \<Rightarrow> ustring" where
  "mutate_base pos result =
     (if length result \<le> pos then result
      else
        let current_base = upper_char (result ! pos)
        in if current_base = ascii ''A'' then result[pos := of_char CHR ''G'']
           else if current_base = ascii ''T'' then result[pos := of_char CHR ''C'']
           else if current_base = ascii ''G'' then result[pos := of_char CHR ''A'']
           else if current_base = ascii ''C'' then result[pos := of_char CHR ''T'']
           else result)"

definition delete_restriction_sites :: "ustring \<Rightarrow> ustring list \<Rightarrow> markers_db \<Rightarrow> ustring" where
  "delete_restriction_sites sequence enzymes_to_delete db =
     (let sites_to_mutate = fold (mark_enzyme sequence db) enzymes_to_delete {}
      in fold mutate_base (rev (sorted_list_of_set sites_to_mutate)) sequence)"

section \<open>ori\_finder.py\<close>

text \<open>The exceptions the arithmetic and the indexing of this module can raise.\<close>

datatype error = IndexError | ZeroDivisionError

text \<open>
  The DnaA patterns are regular expressions of fixed length: each position is a literal
  or a character class.  They are matched with \<open>re.IGNORECASE\<close>.
\<close>

datatype pat_elem = Lit int | Cls ustring

definition dnaa_patterns :: "pat_elem list list" where
  "dnaa_patterns =
     [map Lit (ascii ''TTATCCACA''),
      map Lit (ascii ''TTAT'') @ [Cls (ascii ''ATCG'')] @ map Lit (ascii ''CACA''),
      map Lit (ascii ''TTATCC'') @ [Cls (ascii ''ATCG'')] @ map Lit (ascii ''CA''),
      [Lit (of_char CHR ''T''), Cls (ascii ''ATCG'')] @ map Lit (ascii ''ATCCACA''),
      map Lit (ascii ''TTAT'') @ [Cls (ascii ''ATCG''), Cls (ascii ''ATCG'')] @ map Lit (ascii ''CACA''),
      map Lit (ascii ''TTATCC'')]"

fun elem_matches :: "pat_elem \<Rightarrow> int \<Rightarrow> bool" where
  "elem_matches (Lit x) c \<longleftrightarrow> ascii_upper c = ascii_upper x"
| "elem_matches (Cls xs) c \<longleftrightarrow> ascii_upper c \<in> set (map ascii_upper xs)"

text \<open>
  \<open>re.finditer(pattern, sequence, re.IGNORECASE)\<close>, as the list of \<open>match.start()\<close>:
  matches are taken from left to right and do not overlap, the scan resumes at the end of
  a match (one further for an empty match).
\<close>

function finditer_from :: "pat_elem list \<Rightarrow> ustring \<Rightarrow> nat \<Rightarrow> nat list" where
  "finditer_from pat s pos =
     (if length s < pos + length pat then []
      else if list_all2 elem_matches pat (take (length pat) (drop pos s))
      then pos # finditer_from pat s (pos + max 1 (length pat))
      else finditer_from pat s (Suc pos))"
  by pat_completeness auto
termination
  by (relation "measure (\<lambda>(pat, s, pos). Suc (length s) - pos)") auto

declare finditer_from.simps [simp del]

text \<open>\<open>sorted(set(matches))\<close> over all patterns.\<close>

definition dnaa_matches :: "ustring \<Rightarrow> nat list" where
  "dnaa_matches sequence =
     sorted_list_of_set
       (set (concat (map (\<lambda>pattern. finditer_from pattern sequence 0) dnaa_patterns)))"

text \<open>
  The loop \<open>for i in range(len(matches) - min_matches + 1)\<close>; \<open>cluster[-1]\<close> and
  \<open>cluster[0]\<close> raise \<open>IndexError\<close> on an empty slice.
\<close>

fun cluster_loop :: "ustring \<Rightarrow> nat list \<Rightarrow> nat \<Rightarrow> nat list \<Rightarrow> error + (int \<times> int) option" where
  "cluster_loop sequence matches min_matches [] = Inr None"
| "cluster_loop sequence matches min_matches (i # rest) =
     (let cluster = take min_matches (drop i matches)
      in if cluster = [] then Inl IndexError
         else if int (last cluster) - int (hd cluster) < 500
         then Inr (Some (max 0 (int (hd cluster) - 100),
                         min (int (length sequence)) (int (last cluster) + 200)))
         else cluster_loop sequence matches min_matches rest)"

text \<open>\<open>min_matches\<close> is a count; \<open>find_ori\<close> uses the default 2.\<close>

definition find_dnaa_boxes :: "ustring \<Rightarrow> nat \<Rightarrow> error + (int \<times> int) option" where
  "find_dnaa_boxes sequence min_matches =
     (let matches = dnaa_matches sequence;
          clustered =
            (if min_matches \<le> length matches
             then cluster_loop sequence matches min_matches
                    [0..<length matches - min_matches + 1]
             else Inr None)
      in case clustered of
           Inl e \<Rightarrow> Inl e
         | Inr (Some region) \<Rightarrow> Inr (Some region)
         | Inr None \<Rightarrow>
             (case matches of
                [] \<Rightarrow> Inr None
              | match_pos # _ \<Rightarrow>
                  Inr (Some (max 0 (int match_pos - 150),
                             min (int (length sequence)) (int match_pos + 250)))))"

text \<open>
  The sliding window of \<open>find_at_rich_region\<close>.  \<open>at_content\<close> is a quotient of two
  integers and is kept as an exact rational, the threshold 0.65 as \<open>65 / 100\<close>: for a
  window of 200 bases the comparisons of the quotients come out the same in double
  precision, since distinct quotients differ by at least 1/200.  \<open>window_size\<close> is a
  size.  The division raises \<open>ZeroDivisionError\<close> on an empty window.
\<close>

fun at_rich_loop ::
  "ustring \<Rightarrow> nat \<Rightarrow> rat \<Rightarrow> (nat \<times> nat) option \<Rightarrow> rat \<Rightarrow> nat list \<Rightarrow> error + (nat \<times> nat) option" where
  "at_rich_loop sequence window_size at_threshold best_region best_at_content [] = Inr best_region"
| "at_rich_loop sequence window_size at_threshold best_region best_at_content (i # rest) =
     (let window = take window_size (drop i sequence);
          at_count = count_list window (of_char CHR ''A'') + count_list window (of_char CHR ''T'')
      in if window = [] then Inl ZeroDivisionError
         else
           let at_content = of_nat at_count / of_nat (length window)
           in if at_threshold \<le> at_content \<and> best_at_content < at_content
              then at_rich_loop sequence window_size at_threshold
                     (Some (i, i + window_size)) at_content rest
              else at_rich_loop sequence window_size at_threshold
                     best_region best_at_content rest)"

definition find_at_rich_region :: "ustring \<Rightarrow> nat \<Rightarrow> rat \<Rightarrow> error + (nat \<times> nat) option" where
  "find_at_rich_region sequence window_size at_threshold =
     at_rich_loop sequence window_size at_threshold None 0
       [0..<Suc (length sequence) - window_size]"

definition find_ori :: "ustring \<Rightarrow> error + (int \<times> int \<times> string)" where
  "find_ori sequence =
     (case find_dnaa_boxes sequence 2 of
        Inl e \<Rightarrow> Inl e
      | Inr (Some (start, end)) \<Rightarrow> Inr (start, end, ''dnaa_boxes'')
      | Inr None \<Rightarrow>
          (case find_at_rich_region sequence 200 (65 / 100) of
             Inl e \<Rightarrow> Inl e
           | Inr (Some (start, end)) \<Rightarrow> Inr (int start, int end, ''at_rich'')
           | Inr None \<Rightarrow>
               (let default_size = min 300 (int (length sequence))
                in Inr (0, default_size, ''default''))))"

section \<open>plasmid\_builder.py\<close>

text \<open>
  The loop of \<open>build_mcs_sequence\<close> over the \<open>(site_name, enzyme_name)\<close> pairs.  It
  carries the list \<open>mcs_sequence\<close> and the lines printed so far.
\<close>

definition mcs_warning :: "ustring \<Rightarrow> ustring" where
  "mcs_warning enzyme_name =
     (ascii ''Warning: Restriction site for '') @ enzyme_name @ (ascii '' not found, skipping'')"

fun mcs_loop ::
  "markers_db \<Rightarrow> (ustring \<times> ustring) list \<Rightarrow> ustring list \<Rightarrow> ustring list \<Rightarrow> ustring list \<times> ustring list" where
  "mcs_loop db [] mcs_sequence printed = (mcs_sequence, printed)"
| "mcs_loop db ((site_name, enzyme_name) # rest) mcs_sequence printed =
     (case get_restriction_site_sequence enzyme_name db of
        None \<Rightarrow> mcs_loop db rest mcs_sequence (printed @ [mcs_warning enzyme_name])
      | Some site_seq \<Rightarrow>
          if site_seq = []
          then mcs_loop db rest mcs_sequence (printed @ [mcs_warning enzyme_name])
          else mcs_loop db rest (mcs_sequence @ [site_seq]) printed)"

text \<open>The returned ustring, paired with the lines printed.\<close>

definition build_mcs_sequence :: "(ustring \<times> ustring) list \<Rightarrow> markers_db \<Rightarrow> ustring \<times> ustring list" where
  "build_mcs_sequence mcs_sites db =
     (case mcs_loop db mcs_sites [] [] of
        (mcs_sequence, printed) \<Rightarrow> (str_join (ascii ''AA'') mcs_sequence, printed))"

section \<open>Vocabulary of the specification\<close>

text \<open>
  A recognition text "contains a run of 4 or more of \<open>{A,C,G,T}\<close>" when four consecutive
  characters of the class start at some position.
\<close>

definition has_site_run :: "ustring \<Rightarrow> bool" where
  "has_site_run text \<longleftrightarrow> (\<exists>i. i + 4 \<le> length text \<and> (\<forall>j<4. is_base (text ! (i + j))))"

text \<open>
  A run starts at position \<open>i\<close> of a text when four characters of the class follow from
  there.  The first run of a text is the longest stretch of characters of the class that
  starts at the lowest such position.
\<close>

definition site_run_at :: "ustring \<Rightarrow> nat \<Rightarrow> bool" where
  "site_run_at text i \<longleftrightarrow> i + 4 \<le> length text \<and> (\<forall>j<4. is_base (text ! (i + j)))"

definition first_site_run :: "ustring \<Rightarrow> ustring \<Rightarrow> bool" where
  "first_site_run text m \<longleftrightarrow>
     (\<exists>i. site_run_at text i \<and> (\<forall>k<i. \<not> site_run_at text k)
          \<and> m = takeWhile is_base (drop i text))"

text \<open>
  The recognition sequences of the resolvable enzymes of a design, in input order;
  unresolvable enzymes contribute nothing.
\<close>

definition resolved_sites :: "markers_db \<Rightarrow> (ustring \<times> ustring) list \<Rightarrow> ustring list" where
  "resolved_sites db mcs_sites =
     concat (map (\<lambda>(site_name, enzyme_name).
                    case get_restriction_site_sequence enzyme_name db of
                      None \<Rightarrow> []
                    | Some site \<Rightarrow> [site]) mcs_sites)"

text \<open>The fixed remap of the mutation step: A to G, T to C, G to A, C to T.\<close>

definition remap_base :: "int \<Rightarrow> int" where
  "remap_base c =
     (if c = (of_char CHR ''A'') then (of_char CHR ''G'')
      else if c = (of_char CHR ''T'') then (of_char CHR ''C'')
      else if c = (of_char CHR ''G'') then (of_char CHR ''A'')
      else if c = (of_char CHR ''C'') then (of_char CHR ''T'')
      else c)"

text \<open>
  A site occurs in a ustring at position \<open>p\<close> when the characters from \<open>p\<close> on spell it;
  it matches case-insensitively when they do so after uppercasing both.
\<close>

definition occurs_at :: "ustring \<Rightarrow> ustring \<Rightarrow> nat \<Rightarrow> bool" where
  "occurs_at site s p \<longleftrightarrow> p + length site \<le> length s \<and> take (length site) (drop p s) = site"

definition matches_ci :: "ustring \<Rightarrow> ustring \<Rightarrow> nat \<Rightarrow> bool" where
  "matches_ci site sequence p \<longleftrightarrow>
     p + length site \<le> length sequence
     \<and> upper (take (length site) (drop p sequence)) = upper site"

text \<open>
  Uppercasing keeps the positions of a string when each of its characters becomes exactly
  one character; every ASCII string is such a string.
\<close>

definition single_upper :: "ustring \<Rightarrow> bool" where
  "single_upper s \<longleftrightarrow> (\<forall>c\<in>set s. length (upper_char c) = 1)"

text \<open>
  The positions covered by an occurrence (full pattern width) of the recognition pattern
  of some enzyme of the list that resolves.
\<close>

definition marked_positions :: "ustring \<Rightarrow> ustring list \<Rightarrow> markers_db \<Rightarrow> nat set" where
  "marked_positions S L db =
     {j. \<exists>E\<in>set L. \<exists>P p. get_restriction_site_sequence E db = Some P
           \<and> occurs_at P S p \<and> p \<le> j \<and> j < p + length P}"

text \<open>The Region invariant: \<open>0 \<le> start < end \<le> len(sequence)\<close>.\<close>

definition valid_region :: "ustring \<Rightarrow> int \<Rightarrow> int \<Rightarrow> bool" where
  "valid_region sequence start end \<longleftrightarrow> 0 \<le> start \<and> start < end \<and> end \<le> int (length sequence)"

text \<open>
  A run of two consecutive sorted match positions, starting at index \<open>i\<close> of the sorted
  list, that spans less than 500 bases.
\<close>

definition close_pair :: "nat list \<Rightarrow> nat \<Rightarrow> bool" where
  "close_pair matches i \<longleftrightarrow> int (matches ! Suc i) - int (matches ! i) < 500"

text \<open>
  A pattern has a remap border when, for some \<open>k\<close> with \<open>0 < k < len(P)\<close>, its last \<open>k\<close>
  bases are the remap of its first \<open>k\<close> bases.
\<close>

definition remap_border :: "ustring \<Rightarrow> bool" where
  "remap_border P \<longleftrightarrow>
     list_ex (\<lambda>k. drop (length P - k) P = map remap_base (take k P)) [1..<length P]"

section \<open>Auxiliary notions\<close>

text \<open>The region that the cluster loop returns for the run starting at index \<open>i\<close>.\<close>

definition cluster_region :: "ustring \<Rightarrow> nat list \<Rightarrow> nat \<Rightarrow> int \<times> int" where
  "cluster_region sequence matches i =
     (max 0 (int (matches ! i) - 100), min (int (length sequence)) (int (matches ! Suc i) + 200))"

text \<open>What one round of the mutation loop writes in place of a character.\<close>

definition mutated_char :: "int \<Rightarrow> int" where
  "mutated_char c =
     (let current_base = upper_char c
      in if current_base = ascii ''A'' then of_char CHR ''G''
         else if current_base = ascii ''T'' then of_char CHR ''C''
         else if current_base = ascii ''G'' then of_char CHR ''A''
         else if current_base = ascii ''C'' then of_char CHR ''T''
         else c)"

text \<open>The positions that the marking loops add for one enzyme.\<close>

definition enzyme_windows :: "ustring \<Rightarrow> markers_db \<Rightarrow> ustring \<Rightarrow> nat set" where
  "enzyme_windows sequence db enzyme =
     (case get_restriction_site_sequence enzyme db of
        None \<Rightarrow> {}
      | Some site \<Rightarrow> (\<Union>p\<in>set (find_restriction_sites sequence enzyme db). {p..<p + length site}))"

section \<open>The lookup\<close>

lemma is_base_cases:
  "is_base c \<longleftrightarrow> c = of_char CHR ''A'' \<or> c = of_char CHR ''T''
     \<or> c = of_char CHR ''C'' \<or> c = of_char CHR ''G''"
  by (simp add: is_base_def)

lemma upper_char_base: "is_base c \<Longrightarrow> upper_char c = [c]"
proof -
  assume "is_base c"
  then consider "c = of_char CHR ''A''" | "c = of_char CHR ''T''"
    | "c = of_char CHR ''C''" | "c = of_char CHR ''G''"
    unfolding is_base_cases by blast
  then show ?thesis by cases (simp_all add: upper_char_def ascii_upper_def)
qed

lemma upper_bases: "\<forall>c\<in>set s. is_base c \<Longrightarrow> upper s = s"
  by (induction s) (simp_all add: upper_def upper_char_base)

lemma upper_char_ascii: "c < 128 \<Longrightarrow> upper_char c = [ascii_upper c]"
  by (simp add: upper_char_def)

lemma single_upper_ascii: "\<forall>c\<in>set s. c < 128 \<Longrightarrow> single_upper s"
  by (simp add: single_upper_def upper_char_ascii)

lemma single_upper_bases: "\<forall>c\<in>set s. is_base c \<Longrightarrow> single_upper s"
  by (simp add: single_upper_def upper_char_base)

lemma single_upper_nth:
  "single_upper s \<Longrightarrow> i < length s \<Longrightarrow> upper s ! i = hd (upper_char (s ! i))"
proof (induction s arbitrary: i)
  case Nil
  then show ?case by simp
next
  case (Cons c cs)
  from Cons.prems(1) have c: "length (upper_char c) = 1" and cs: "single_upper cs"
    by (simp_all add: single_upper_def)
  from c obtain u where u: "upper_char c = [u]" by (cases "upper_char c") auto
  show ?case
  proof (cases i)
    case 0
    with u show ?thesis by (simp add: upper_def)
  next
    case (Suc k)
    with Cons.prems(2) have "k < length cs" by simp
    from Cons.IH [OF cs this] u Suc show ?thesis by (simp add: upper_def)
  qed
qed

lemma single_upper_length: "single_upper s \<Longrightarrow> length (upper s) = length s"
proof (induction s)
  case Nil
  show ?case by (simp add: upper_def)
next
  case (Cons c cs)
  from Cons.prems have c: "length (upper_char c) = 1" and cs: "single_upper cs"
    by (simp_all add: single_upper_def)
  from Cons.IH [OF cs] c show ?case by (simp add: upper_def)
qed

lemma upper_append: "upper (xs @ ys) = upper xs @ upper ys"
  by (simp add: upper_def)

lemma single_upper_take: "single_upper s \<Longrightarrow> single_upper (take n s)"
  by (auto simp: single_upper_def dest: in_set_takeD)

lemma single_upper_drop: "single_upper s \<Longrightarrow> single_upper (drop n s)"
  by (auto simp: single_upper_def dest: in_set_dropD)

lemma single_upper_map:
  "single_upper s \<Longrightarrow> upper s = map (\<lambda>c. hd (upper_char c)) s"
proof (induction s)
  case Nil
  show ?case by (simp add: upper_def)
next
  case (Cons c cs)
  from Cons.prems have c: "length (upper_char c) = 1" and cs: "single_upper cs"
    by (simp_all add: single_upper_def)
  from c obtain u where u: "upper_char c = [u]" by (cases "upper_char c") auto
  from Cons.IH [OF cs] have "upper cs = map (\<lambda>c. hd (upper_char c)) cs" .
  moreover have "upper (c # cs) = upper_char c @ upper cs" by (simp add: upper_def)
  ultimately show ?case using u by simp
qed

lemma single_upper_take_drop:
  assumes "single_upper s"
  shows "upper (take n (drop p s)) = take n (drop p (upper s))"
proof -
  have "single_upper (take n (drop p s))"
    using assms by (intro single_upper_take single_upper_drop)
  then have "upper (take n (drop p s)) = map (\<lambda>c. hd (upper_char c)) (take n (drop p s))"
    by (rule single_upper_map)
  also have "\<dots> = take n (drop p (map (\<lambda>c. hd (upper_char c)) s))"
    by (simp only: take_map drop_map)
  also have "\<dots> = take n (drop p (upper s))"
    by (simp only: single_upper_map [OF assms])
  finally show ?thesis .
qed

lemma re_search_site_Some:
  "re_search_site t = Some m \<Longrightarrow> 4 \<le> length m \<and> (\<forall>c\<in>set m. is_base c)"
proof (induction t)
  case Nil
  then show ?case by simp
next
  case (Cons c cs)
  show ?case
  proof (cases "4 \<le> length (takeWhile is_base (c # cs))")
    case True
    with Cons.prems have "m = takeWhile is_base (c # cs)"
      by (simp only: re_search_site.simps Let_def if_True option.inject)
    with True show ?thesis by (auto dest: set_takeWhileD)
  next
    case False
    with Cons.prems have "re_search_site cs = Some m"
      by (simp only: re_search_site.simps Let_def if_False)
    then show ?thesis by (rule Cons.IH)
  qed
qed

lemma takeWhile_run:
  assumes "i + 4 \<le> length t" and "\<forall>j<4. is_base (t ! (i + j))"
  shows "4 \<le> length (takeWhile is_base (drop i t))"
proof -
  let ?xs = "drop i t"
  have len: "length (take 4 ?xs) = 4" using assms(1) by simp
  have "\<forall>x\<in>set (take 4 ?xs). is_base x"
  proof
    fix x assume "x \<in> set (take 4 ?xs)"
    then obtain j where "j < 4" "x = take 4 ?xs ! j"
      using len by (metis in_set_conv_nth)
    with assms show "is_base x" by simp
  qed
  then have "takeWhile is_base (take 4 ?xs @ drop 4 ?xs)
      = take 4 ?xs @ takeWhile is_base (drop 4 ?xs)"
    by (simp add: takeWhile_append2)
  then have "length (takeWhile is_base ?xs) = 4 + length (takeWhile is_base (drop 4 ?xs))"
    using len by (simp only: append_take_drop_id length_append)
  then show ?thesis by simp
qed

lemma re_search_site_None:
  "re_search_site t = None \<Longrightarrow> \<not> has_site_run t"
proof (induction t)
  case Nil
  then show ?case by (simp add: has_site_run_def)
next
  case (Cons c cs)
  have short: "\<not> 4 \<le> length (takeWhile is_base (c # cs))"
  proof
    assume "4 \<le> length (takeWhile is_base (c # cs))"
    then have "re_search_site (c # cs) = Some (takeWhile is_base (c # cs))"
      by (simp only: re_search_site.simps Let_def if_True)
    with Cons.prems show False by simp
  qed
  then have "re_search_site (c # cs) = re_search_site cs"
    by (simp only: re_search_site.simps Let_def if_False)
  with Cons.prems have rest: "re_search_site cs = None" by simp
  show ?case
  proof
    assume "has_site_run (c # cs)"
    then obtain i where i: "i + 4 \<le> length (c # cs)" "\<forall>j<4. is_base ((c # cs) ! (i + j))"
      unfolding has_site_run_def by blast
    show False
    proof (cases i)
      case 0
      from takeWhile_run [OF i] short show False by (simp only: 0 drop_0)
    next
      case (Suc k)
      with i have "k + 4 \<le> length cs" "\<forall>j<4. is_base (cs ! (k + j))"
        by simp_all
      then have "has_site_run cs" unfolding has_site_run_def by blast
      with Cons.IH [OF rest] show False by simp
    qed
  qed
qed

lemma re_search_site_Some_run:
  "re_search_site t = Some m \<Longrightarrow> has_site_run t"
proof (induction t)
  case Nil
  then show ?case by simp
next
  case (Cons c cs)
  let ?run = "takeWhile is_base (c # cs)"
  show ?case
  proof (cases "4 \<le> length ?run")
    case True
    have "\<forall>j<4. is_base ((c # cs) ! (0 + j))"
    proof (intro allI impI)
      fix j :: nat assume "j < 4"
      with True have j: "j < length ?run" by simp
      then have "?run ! j = (c # cs) ! j" by (rule takeWhile_nth)
      moreover have "is_base (?run ! j)" using j nth_mem set_takeWhileD by metis
      ultimately show "is_base ((c # cs) ! (0 + j))" by simp
    qed
    moreover have "0 + 4 \<le> length (c # cs)"
      using True length_takeWhile_le [of is_base "c # cs"] by simp
    ultimately show ?thesis unfolding has_site_run_def by blast
  next
    case False
    with Cons.prems have "re_search_site cs = Some m"
      by (simp only: re_search_site.simps Let_def if_False)
    then have "has_site_run cs" by (rule Cons.IH)
    then obtain i where "i + 4 \<le> length cs" "\<forall>j<4. is_base (cs ! (i + j))"
      unfolding has_site_run_def by blast
    then have "Suc i + 4 \<le> length (c # cs)" "\<forall>j<4. is_base ((c # cs) ! (Suc i + j))"
      by simp_all
    then show ?thesis unfolding has_site_run_def by blast
  qed
qed

lemma re_search_site_no_run: "\<not> has_site_run t \<Longrightarrow> re_search_site t = None"
  using re_search_site_Some_run by (cases "re_search_site t") auto

lemma ci_match_Some:
  "ci_match e db = Some m \<Longrightarrow> 4 \<le> length m \<and> (\<forall>c\<in>set m. is_base c)"
proof (induction db)
  case Nil
  then show ?case by simp
next
  case (Cons kv rest)
  obtain key v where kv: "kv = (key, v)" by (cases kv)
  show ?case
  proof (cases "upper key = upper e")
    case True
    show ?thesis
    proof (cases "re_search_site (upper (recognition v))")
      case None
      with True kv Cons.prems have "ci_match e rest = Some m" by simp
      then show ?thesis by (rule Cons.IH)
    next
      case (Some m')
      with True kv Cons.prems have "m' = m" by simp
      with Some show ?thesis by (simp add: re_search_site_Some)
    qed
  next
    case False
    with kv Cons.prems have "ci_match e rest = Some m" by simp
    then show ?thesis by (rule Cons.IH)
  qed
qed

lemma ci_match_None:
  "\<forall>(key, v)\<in>set db. upper key = upper e \<longrightarrow> \<not> has_site_run (upper (recognition v))
    \<Longrightarrow> ci_match e db = None"
proof (induction db)
  case Nil
  show ?case by simp
next
  case (Cons kv rest)
  obtain key v where kv: "kv = (key, v)" by (cases kv)
  from Cons.prems have rest: "ci_match e rest = None" by (intro Cons.IH) simp
  show ?case
  proof (cases "upper key = upper e")
    case True
    with Cons.prems kv have "\<not> has_site_run (upper (recognition v))" by simp
    then have "re_search_site (upper (recognition v)) = None" by (rule re_search_site_no_run)
    with True kv rest show ?thesis by simp
  next
    case False
    with kv rest show ?thesis by simp
  qed
qed

lemma exact_match_Some:
  "exact_match e db = Some m \<Longrightarrow> 4 \<le> length m \<and> (\<forall>c\<in>set m. is_base c)"
  by (auto simp: exact_match_def split: option.splits dest: re_search_site_Some)

lemma exact_match_None:
  assumes "\<forall>(key, v)\<in>set db. upper key = upper e \<longrightarrow> \<not> has_site_run (upper (recognition v))"
  shows "exact_match e db = None"
proof (cases "map_of db e")
  case None
  then show ?thesis by (simp add: exact_match_def)
next
  case (Some v)
  then have "(e, v) \<in> set db" by (rule map_of_SomeD)
  with assms have "\<not> has_site_run (upper (recognition v))" by auto
  then have "re_search_site (upper (recognition v)) = None" by (rule re_search_site_no_run)
  with Some show ?thesis by (simp add: exact_match_def)
qed

lemma known_sites_Some:
  "map_of known_sites k = Some m \<Longrightarrow> 4 \<le> length m \<and> (\<forall>c\<in>set m. is_base c)"
  by (auto simp: known_sites_def is_base_def split: if_splits)

lemma lookup_Some:
  assumes "get_restriction_site_sequence e db = Some m"
  shows "4 \<le> length m \<and> (\<forall>c\<in>set m. is_base c)"
proof (cases "exact_match e db")
  case (Some a)
  with assms have "a = m" by (simp add: get_restriction_site_sequence_def)
  with Some show ?thesis by (simp add: exact_match_Some)
next
  case None
  show ?thesis
  proof (cases "ci_match e db")
    case (Some a)
    with None assms have "a = m" by (simp add: get_restriction_site_sequence_def)
    with Some show ?thesis by (simp add: ci_match_Some)
  next
    case ci: None
    with None assms have "map_of known_sites (upper e) = Some m"
      by (simp add: get_restriction_site_sequence_def)
    then show ?thesis by (rule known_sites_Some)
  qed
qed

lemma lookup_None:
  assumes "\<forall>(key, v)\<in>set db. upper key = upper e \<longrightarrow> \<not> has_site_run (upper (recognition v))"
    and "upper e \<notin> fst ` set known_sites"
  shows "get_restriction_site_sequence e db = None"
proof -
  from assms(2) have "map_of known_sites (upper e) = None"
    by (simp add: map_of_eq_None_iff)
  with exact_match_None [OF assms(1)] ci_match_None [OF assms(1)]
  show ?thesis by (simp add: get_restriction_site_sequence_def)
qed

lemma site_run_at_Suc: "site_run_at (c # cs) (Suc k) \<longleftrightarrow> site_run_at cs k"
  by (auto simp: site_run_at_def)

lemma site_run_at_0:
  "site_run_at s 0 \<longleftrightarrow> 4 \<le> length (takeWhile is_base s)"
proof
  assume "site_run_at s 0"
  then have "0 + 4 \<le> length s" "\<forall>j<4. is_base (s ! (0 + j))"
    by (simp_all add: site_run_at_def)
  from takeWhile_run [OF this] show "4 \<le> length (takeWhile is_base s)" by simp
next
  assume long: "4 \<le> length (takeWhile is_base s)"
  have "\<forall>j<4. is_base (s ! (0 + j))"
  proof (intro allI impI)
    fix j :: nat assume "j < 4"
    with long have j: "j < length (takeWhile is_base s)" by simp
    then have "takeWhile is_base s ! j = s ! j" by (rule takeWhile_nth)
    moreover have "is_base (takeWhile is_base s ! j)"
      using j nth_mem set_takeWhileD by metis
    ultimately show "is_base (s ! (0 + j))" by simp
  qed
  moreover have "0 + 4 \<le> length s"
    using long length_takeWhile_le [of is_base s] by simp
  ultimately show "site_run_at s 0" by (simp add: site_run_at_def)
qed

lemma re_search_site_first_run:
  "re_search_site t = Some m \<Longrightarrow> first_site_run t m"
proof (induction t)
  case Nil
  then show ?case by simp
next
  case (Cons c cs)
  show ?case
  proof (cases "4 \<le> length (takeWhile is_base (c # cs))")
    case True
    with Cons.prems have "m = takeWhile is_base (drop 0 (c # cs))"
      by (simp only: re_search_site.simps Let_def if_True option.inject drop_0)
    moreover from True have "site_run_at (c # cs) 0" by (simp only: site_run_at_0)
    ultimately show ?thesis unfolding first_site_run_def by blast
  next
    case False
    with Cons.prems have "re_search_site cs = Some m"
      by (simp only: re_search_site.simps Let_def if_False)
    then have "first_site_run cs m" by (rule Cons.IH)
    then obtain i where run: "site_run_at cs i" and first: "\<forall>k<i. \<not> site_run_at cs k"
      and m: "m = takeWhile is_base (drop i cs)"
      unfolding first_site_run_def by blast
    from False have no0: "\<not> site_run_at (c # cs) 0" by (simp add: site_run_at_0)
    have "\<not> site_run_at (c # cs) k" if "k < Suc i" for k
    proof (cases k)
      case 0
      with no0 show ?thesis by simp
    next
      case (Suc k')
      with that first show ?thesis by (simp add: site_run_at_Suc)
    qed
    moreover from run have "site_run_at (c # cs) (Suc i)" by (simp only: site_run_at_Suc)
    moreover from m have "m = takeWhile is_base (drop (Suc i) (c # cs))" by simp
    ultimately show ?thesis unfolding first_site_run_def by blast
  qed
qed

lemma has_site_run_iff: "has_site_run t \<longleftrightarrow> (\<exists>i. site_run_at t i)"
  by (simp add: has_site_run_def site_run_at_def)

lemma exact_match_first_run:
  assumes "map_of db E = Some v" and "has_site_run (upper (recognition v))"
  shows "\<exists>m. get_restriction_site_sequence E db = Some m
    \<and> first_site_run (upper (recognition v)) m"
proof (cases "re_search_site (upper (recognition v))")
  case None
  then have "\<not> has_site_run (upper (recognition v))" by (rule re_search_site_None)
  with assms(2) show ?thesis by simp
next
  case (Some m)
  with assms(1) have "exact_match E db = Some m" by (simp add: exact_match_def)
  then have "get_restriction_site_sequence E db = Some m"
    by (simp add: get_restriction_site_sequence_def)
  with re_search_site_first_run [OF Some] show ?thesis by blast
qed

lemma mcs_loop_resolved:
  "fst (mcs_loop db mcs_sites mcs_sequence printed) = mcs_sequence @ resolved_sites db mcs_sites"
proof (induction mcs_sites arbitrary: mcs_sequence printed)
  case Nil
  show ?case by (simp add: resolved_sites_def)
next
  case (Cons pair rest)
  obtain site_name enzyme_name where pair: "pair = (site_name, enzyme_name)" by (cases pair)
  show ?case
  proof (cases "get_restriction_site_sequence enzyme_name db")
    case None
    with pair Cons.IH show ?thesis by (simp add: resolved_sites_def)
  next
    case (Some site_seq)
    then have "site_seq \<noteq> []" using lookup_Some by fastforce
    with Some pair Cons.IH show ?thesis by (simp add: resolved_sites_def)
  qed
qed

section \<open>The mutation step\<close>

lemma length_mutate_base [simp]: "length (mutate_base pos result) = length result"
  by (simp add: mutate_base_def Let_def)

lemma length_fold_mutate_base [simp]: "length (fold mutate_base ps result) = length result"
  by (induction ps arbitrary: result) simp_all

lemma mutate_base_at:
  "pos < length result \<Longrightarrow> mutate_base pos result ! pos = mutated_char (result ! pos)"
  by (simp add: mutate_base_def mutated_char_def Let_def)

lemma mutate_base_other:
  "j \<noteq> pos \<Longrightarrow> mutate_base pos result ! j = result ! j"
  by (simp add: mutate_base_def Let_def)

lemma fold_mutate_base_nth:
  "distinct ps \<Longrightarrow> j < length result \<Longrightarrow>
   fold mutate_base ps result ! j = (if j \<in> set ps then mutated_char (result ! j) else result ! j)"
proof (induction ps arbitrary: result)
  case Nil
  show ?case by simp
next
  case (Cons p ps)
  from Cons.prems have d: "distinct ps" and p: "p \<notin> set ps" by simp_all
  have len: "j < length (mutate_base p result)" using Cons.prems by simp
  have step: "fold mutate_base (p # ps) result ! j
      = (if j \<in> set ps then mutated_char (mutate_base p result ! j) else mutate_base p result ! j)"
    using Cons.IH [OF d len] by simp
  show ?case
  proof (cases "j = p")
    case True
    with p have "j \<notin> set ps" by simp
    with step have "fold mutate_base (p # ps) result ! j = mutate_base p result ! j"
      by (simp only: if_False)
    also have "\<dots> = mutated_char (result ! j)"
      using Cons.prems(2) unfolding True by (rule mutate_base_at)
    finally show ?thesis using True by simp
  next
    case False
    then have "mutate_base p result ! j = result ! j" by (rule mutate_base_other)
    with step False show ?thesis by simp
  qed
qed

lemma mark_site_eq: "mark_site pos n A = A \<union> {pos..<pos + n}"
proof -
  have "fold (\<lambda>i acc. insert (pos + i) acc) [0..<n] A = A \<union> {pos..<pos + n}"
  proof (induction n)
    case 0
    show ?case by simp
  next
    case (Suc n)
    have "{pos..<pos + Suc n} = insert (pos + n) {pos..<pos + n}"
      by (simp add: atLeastLessThanSuc)
    with Suc show ?case by simp
  qed
  then show ?thesis by (simp add: mark_site_def)
qed

lemma fold_mark_site_eq:
  "fold (\<lambda>pos acc. mark_site pos n acc) ps A = A \<union> (\<Union>p\<in>set ps. {p..<p + n})"
  by (induction ps arbitrary: A) (auto simp: mark_site_eq)

lemma mark_enzyme_eq:
  "mark_enzyme sequence db enzyme A = A \<union> enzyme_windows sequence db enzyme"
proof (cases "get_restriction_site_sequence enzyme db")
  case None
  then show ?thesis by (simp add: mark_enzyme_def enzyme_windows_def)
next
  case (Some site)
  show ?thesis
  proof (cases "site = []")
    case True
    with Some show ?thesis
      by (simp add: mark_enzyme_def enzyme_windows_def find_restriction_sites_def)
  next
    case False
    with Some show ?thesis
      by (simp add: mark_enzyme_def enzyme_windows_def fold_mark_site_eq Let_def)
  qed
qed

lemma fold_mark_enzyme_eq:
  "fold (mark_enzyme sequence db) enzymes A = A \<union> (\<Union>e\<in>set enzymes. enzyme_windows sequence db e)"
  by (induction enzymes arbitrary: A) (auto simp: mark_enzyme_eq)

lemma finite_enzyme_windows: "finite (enzyme_windows sequence db enzyme)"
  by (simp add: enzyme_windows_def split: option.splits)

lemma delete_restriction_sites_nth:
  assumes "j < length sequence"
  shows "delete_restriction_sites sequence enzymes db ! j =
    (if j \<in> (\<Union>e\<in>set enzymes. enzyme_windows sequence db e)
     then mutated_char (sequence ! j) else sequence ! j)"
proof -
  let ?M = "\<Union>e\<in>set enzymes. enzyme_windows sequence db e"
  have fin: "finite ?M" by (simp add: finite_enzyme_windows)
  have marks: "fold (mark_enzyme sequence db) enzymes {} = ?M"
    by (simp add: fold_mark_enzyme_eq)
  have "distinct (rev (sorted_list_of_set ?M))" by simp
  moreover have "set (rev (sorted_list_of_set ?M)) = ?M" using fin by simp
  ultimately show ?thesis
    using fold_mutate_base_nth [of "rev (sorted_list_of_set ?M)" j sequence] assms
    by (simp only: delete_restriction_sites_def Let_def marks)
qed

lemma length_delete_restriction_sites:
  "length (delete_restriction_sites sequence enzymes db) = length sequence"
  by (simp add: delete_restriction_sites_def Let_def)

section \<open>The search\<close>

lemma str_find_None:
  "str_find s sub start = None \<Longrightarrow> start \<le> p \<Longrightarrow> \<not> occurs_at sub s p"
proof (induction s sub start rule: str_find.induct)
  case (1 s sub start)
  show ?case
  proof (cases "length s < start + length sub")
    case True
    with "1.prems" show ?thesis by (simp add: occurs_at_def)
  next
    case room: False
    show ?thesis
    proof (cases "take (length sub) (drop start s) = sub")
      case True
      with room "1.prems" show ?thesis by (simp add: str_find.simps [of s sub start])
    next
      case miss: False
      with room "1.prems" have rest: "str_find s sub (Suc start) = None" by (simp add: str_find.simps [of s sub start])
      show ?thesis
      proof (cases "p = start")
        case True
        with miss show ?thesis by (simp add: occurs_at_def)
      next
        case False
        with "1.prems" have "Suc start \<le> p" by (simp add: str_find.simps [of s sub start])
        with "1.IH" [OF room miss rest] show ?thesis by (simp add: str_find.simps [of s sub start])
      qed
    qed
  qed
qed

lemma str_find_Some:
  "str_find s sub start = Some pos \<Longrightarrow>
     start \<le> pos \<and> occurs_at sub s pos \<and> (\<forall>q. start \<le> q \<and> q < pos \<longrightarrow> \<not> occurs_at sub s q)"
proof (induction s sub start rule: str_find.induct)
  case (1 s sub start)
  show ?case
  proof (cases "length s < start + length sub")
    case True
    with "1.prems" show ?thesis by (simp add: str_find.simps [of s sub start])
  next
    case room: False
    show ?thesis
    proof (cases "take (length sub) (drop start s) = sub")
      case True
      with room "1.prems" have "pos = start" by (simp add: str_find.simps [of s sub start])
      with room True show ?thesis by (auto simp: occurs_at_def)
    next
      case miss: False
      with room "1.prems" have rest: "str_find s sub (Suc start) = Some pos" by (simp add: str_find.simps [of s sub start])
      note ih = "1.IH" [OF room miss rest]
      have here: "\<not> occurs_at sub s start" using miss by (simp add: occurs_at_def)
      have "\<not> occurs_at sub s q" if "start \<le> q \<and> q < pos" for q
      proof (cases "q = start")
        case True
        with here show ?thesis by (simp add: str_find.simps [of s sub start])
      next
        case False
        with that have "Suc start \<le> q \<and> q < pos" by (simp add: str_find.simps [of s sub start])
        with ih show ?thesis by blast
      qed
      moreover from ih have "start \<le> pos" by (simp add: str_find.simps [of s sub start])
      ultimately show ?thesis using ih by blast
    qed
  qed
qed

lemma find_loop_eq:
  "find_loop s sub start positions
     = positions @ filter (occurs_at sub s) [start..<Suc (length s)]"
proof (induction s sub start positions rule: find_loop.induct)
  case (1 s sub start positions)
  let ?occ = "occurs_at sub s"
  show ?case
  proof (cases "str_find s sub start")
    case None
    have "\<forall>x\<in>set [start..<Suc (length s)]. \<not> ?occ x"
      using str_find_None [OF None] by (simp del: upt_Suc)
    then have "filter ?occ [start..<Suc (length s)] = []"
      by (simp only: filter_empty_conv)
    moreover have "find_loop s sub start positions = positions"
      by (simp only: find_loop.simps [of s sub start positions] None option.case)
    ultimately show ?thesis by (simp only: append_Nil2)
  next
    case (Some pos)
    from str_find_Some [OF Some] have le: "start \<le> pos" and occ: "?occ pos"
      and first: "\<forall>q. start \<le> q \<and> q < pos \<longrightarrow> \<not> ?occ q"
      by simp_all
    from occ have bound: "pos < Suc (length s)" by (simp add: occurs_at_def)
    have "[start..<pos + (Suc (length s) - pos)] = [start..<pos] @ [pos..<pos + (Suc (length s) - pos)]"
      using le by (rule upt_add_eq_append)
    moreover have "pos + (Suc (length s) - pos) = Suc (length s)" using bound by arith
    moreover have "[pos..<Suc (length s)] = pos # [Suc pos..<Suc (length s)]"
      using bound by (rule upt_conv_Cons)
    ultimately have split:
      "[start..<Suc (length s)] = [start..<pos] @ pos # [Suc pos..<Suc (length s)]"
      by (simp only:)
    have before: "filter ?occ [start..<pos] = []"
      using first by (simp add: filter_empty_conv)
    have "filter ?occ [start..<Suc (length s)]
        = filter ?occ ([start..<pos] @ pos # [Suc pos..<Suc (length s)])"
      using split by (rule arg_cong)
    also have "\<dots> = pos # filter ?occ [Suc pos..<Suc (length s)]"
      using occ before by (simp only: filter_append filter.simps if_True append_Nil)
    finally have filt: "filter ?occ [start..<Suc (length s)]
        = pos # filter ?occ [Suc pos..<Suc (length s)]" .
    have next_start: "pos + 1 = Suc pos" by simp
    have "find_loop s sub start positions = find_loop s sub (pos + 1) (positions @ [pos])"
      by (simp only: find_loop.simps [of s sub start positions] Some option.case)
    also have "\<dots> = (positions @ [pos]) @ filter ?occ [pos + 1..<Suc (length s)]"
      by (rule "1.IH" [OF Some])
    also have "\<dots> = positions @ pos # filter ?occ [Suc pos..<Suc (length s)]"
      unfolding next_start by (simp only: append_assoc append_Cons append_Nil)
    finally show ?thesis by (simp only: filt)
  qed
qed

lemma find_occurrences_upper:
  "find_occurrences sequence site
     = filter (occurs_at (upper site) (upper sequence)) [0..<Suc (length (upper sequence))]"
  unfolding find_occurrences_def Let_def find_loop_eq
  by (simp only: append_Nil)

lemma sorted_find_occurrences: "sorted_wrt (<) (find_occurrences sequence site)"
  by (simp add: find_occurrences_upper sorted_wrt_filter del: upt_Suc)

lemma occurs_at_upper:
  assumes "single_upper s" and "upper site = site"
  shows "occurs_at (upper site) (upper s) p \<longleftrightarrow> matches_ci site s p"
  by (simp add: occurs_at_def matches_ci_def assms(2)
      single_upper_take_drop [OF assms(1)] single_upper_length [OF assms(1)])

lemma find_occurrences_eq:
  assumes "single_upper sequence" and "upper site = site"
  shows "find_occurrences sequence site
    = filter (matches_ci site sequence) [0..<Suc (length sequence)]"
  unfolding find_occurrences_upper single_upper_length [OF assms(1)] occurs_at_upper [OF assms]
  by (rule refl)

lemma set_find_occurrences:
  assumes "single_upper sequence" and "upper site = site"
  shows "set (find_occurrences sequence site) = {p. matches_ci site sequence p}"
  by (auto simp: find_occurrences_eq [OF assms] matches_ci_def simp del: upt_Suc)

lemma find_restriction_sites_resolved:
  "get_restriction_site_sequence E db = Some P \<Longrightarrow>
     find_restriction_sites S E db = find_occurrences S P"
  using lookup_Some [of E db P] by (auto simp: find_restriction_sites_def)

lemma lookup_upper:
  "get_restriction_site_sequence E db = Some P \<Longrightarrow> upper P = P"
  using lookup_Some [of E db P] by (simp add: upper_bases)

lemma enzyme_windows_iff:
  assumes "single_upper S"
  shows "j \<in> enzyme_windows S db E \<longleftrightarrow>
     (\<exists>P p. get_restriction_site_sequence E db = Some P \<and> matches_ci P S p \<and> p \<le> j \<and> j < p + length P)"
proof (cases "get_restriction_site_sequence E db")
  case None
  then show ?thesis by (simp add: enzyme_windows_def)
next
  case (Some P)
  then have "enzyme_windows S db E = (\<Union>p\<in>{p. matches_ci P S p}. {p..<p + length P})"
    by (simp add: enzyme_windows_def find_restriction_sites_resolved
        set_find_occurrences [OF assms lookup_upper])
  with Some show ?thesis by auto
qed

lemma mutated_char_non_base:
  "upper_char c \<notin> {ascii ''A'', ascii ''T'', ascii ''G'', ascii ''C''} \<Longrightarrow> mutated_char c = c"
  by (simp add: mutated_char_def Let_def)

lemma mutated_char_upper_base:
  "upper_char c = [b] \<Longrightarrow> is_base b \<Longrightarrow> mutated_char c = remap_base b"
  by (auto simp: mutated_char_def Let_def is_base_cases remap_base_def)

lemma mutated_char_base: "is_base c \<Longrightarrow> mutated_char c = remap_base c"
  by (rule mutated_char_upper_base [OF upper_char_base])

lemma remap_base_changes: "is_base c \<Longrightarrow> remap_base c \<noteq> c"
  by (auto simp: is_base_cases remap_base_def)

lemma is_base_ACGT: "is_base c \<longleftrightarrow> c \<in> set (ascii ''ACGT'')"
  by (auto simp: is_base_cases)

lemma occurs_at_uppercase:
  assumes S: "\<forall>c\<in>set S. is_base c" and P: "\<forall>c\<in>set P. is_base c"
  shows "matches_ci P S p \<longleftrightarrow> occurs_at P S p"
proof -
  have "upper S = S" using S by (rule upper_bases)
  moreover have "upper P = P" using P by (rule upper_bases)
  ultimately show ?thesis
    by (simp add: matches_ci_def occurs_at_def
        single_upper_take_drop [OF single_upper_bases [OF S]])
qed

lemma windows_marked_positions:
  assumes S: "\<forall>c\<in>set S. is_base c"
  shows "(\<Union>e\<in>set L. enzyme_windows S db e) = marked_positions S L db"
proof -
  have "j \<in> (\<Union>e\<in>set L. enzyme_windows S db e) \<longleftrightarrow> j \<in> marked_positions S L db" for j
  proof -
    have "(\<exists>P p. get_restriction_site_sequence E db = Some P \<and> matches_ci P S p \<and> p \<le> j \<and> j < p + length P)
      \<longleftrightarrow> (\<exists>P p. get_restriction_site_sequence E db = Some P \<and> occurs_at P S p \<and> p \<le> j \<and> j < p + length P)"
      for E
      using occurs_at_uppercase [OF S] lookup_Some [of E db] by blast
    then show ?thesis
      by (simp add: marked_positions_def enzyme_windows_iff [OF single_upper_bases [OF S]])
  qed
  then show ?thesis by blast
qed

section \<open>Deleting the sites of one enzyme\<close>

lemma remap_base_involution: "is_base c \<Longrightarrow> remap_base (remap_base c) = c"
  by (auto simp: is_base_cases remap_base_def)

lemma is_base_remap_base: "is_base c \<Longrightarrow> is_base (remap_base c)"
  by (auto simp: is_base_cases remap_base_def)

lemma single_upper_iff_nth:
  "single_upper s \<longleftrightarrow> (\<forall>j<length s. length (upper_char (s ! j)) = 1)"
  by (simp add: single_upper_def all_set_conv_all_nth)

lemma mutated_char_single:
  assumes "length (upper_char c) = 1"
  shows "length (upper_char (mutated_char c)) = 1"
proof -
  have "mutated_char c = c \<or> is_base (mutated_char c)"
    by (simp add: mutated_char_def Let_def is_base_cases)
  then show ?thesis using assms by (auto simp: upper_char_base)
qed

lemma single_upper_delete:
  assumes "single_upper S"
  shows "single_upper (delete_restriction_sites S L db)"
proof -
  have "length (upper_char (delete_restriction_sites S L db ! j)) = 1" if "j < length S" for j
  proof -
    from assms that have c: "length (upper_char (S ! j)) = 1"
      by (simp add: single_upper_iff_nth)
    from delete_restriction_sites_nth [OF that, of L db]
    have "delete_restriction_sites S L db ! j = mutated_char (S ! j)
      \<or> delete_restriction_sites S L db ! j = S ! j"
      by (simp split: if_splits)
    with c mutated_char_single [OF c] show ?thesis by auto
  qed
  then show ?thesis
    by (simp add: single_upper_iff_nth length_delete_restriction_sites)
qed

lemma matches_ci_nth:
  assumes "\<forall>c\<in>set P. is_base c" and "single_upper X"
  shows "matches_ci P X q \<longleftrightarrow>
    q + length P \<le> length X \<and> (\<forall>i<length P. upper_char (X ! (q + i)) = [P ! i])"
proof -
  have P: "upper P = P" using assms(1) by (rule upper_bases)
  show ?thesis
  proof (cases "q + length P \<le> length X")
    case False
    then show ?thesis by (simp add: matches_ci_def)
  next
    case True
    let ?slice = "take (length P) (drop q X)"
    have slice: "single_upper ?slice"
      using assms(2) by (intro single_upper_take single_upper_drop)
    have up: "upper ?slice = map (\<lambda>c. hd (upper_char c)) ?slice"
      using slice by (rule single_upper_map)
    from True have len: "length (upper ?slice) = length P" by (simp add: up)
    have one: "length (upper_char (X ! (q + i))) = 1" if "i < length P" for i
      using assms(2) that True by (simp add: single_upper_iff_nth)
    have nth: "upper ?slice ! i = hd (upper_char (X ! (q + i)))" if "i < length P" for i
      using that True by (simp add: up)
    have "hd (upper_char (X ! (q + i))) = P ! i \<longleftrightarrow> upper_char (X ! (q + i)) = [P ! i]"
      if "i < length P" for i
      using one [OF that] by (cases "upper_char (X ! (q + i))") auto
    with nth have "upper ?slice = P
      \<longleftrightarrow> (\<forall>i<length P. upper_char (X ! (q + i)) = [P ! i])"
      using len by (auto simp: list_eq_iff_nth_eq)
    with True P show ?thesis by (simp add: matches_ci_def)
  qed
qed

lemma single_enzyme_nth:
  assumes "j < length S"
  shows "delete_restriction_sites S [E] db ! j =
    (if j \<in> enzyme_windows S db E then mutated_char (S ! j) else S ! j)"
  using delete_restriction_sites_nth [OF assms, of "[E]" db] by simp

lemma window_char:
  assumes lookup: "get_restriction_site_sequence E db = Some P"
    and single: "single_upper S"
    and occ: "matches_ci P S p" and i: "i < length P"
  shows "upper_char (delete_restriction_sites S [E] db ! (p + i)) = [remap_base (P ! i)]"
proof -
  from lookup_Some [OF lookup] have bases: "\<forall>c\<in>set P. is_base c" by simp
  from occ have fits: "p + length P \<le> length S"
    and chars: "\<forall>i<length P. upper_char (S ! (p + i)) = [P ! i]"
    by (simp_all add: matches_ci_nth [OF bases single])
  from fits i have j: "p + i < length S" by simp
  from chars i have u: "upper_char (S ! (p + i)) = [P ! i]" by simp
  from bases i have b: "is_base (P ! i)" by simp
  have "p + i \<in> enzyme_windows S db E"
    unfolding enzyme_windows_iff [OF single] using lookup occ i by auto
  with single_enzyme_nth [OF j, of E db]
  have "delete_restriction_sites S [E] db ! (p + i) = mutated_char (S ! (p + i))" by simp
  also have "\<dots> = remap_base (P ! i)" using u b by (rule mutated_char_upper_base)
  finally show ?thesis using is_base_remap_base [OF b] by (simp add: upper_char_base)
qed

lemma outside_char:
  assumes "j < length S" and "j \<notin> enzyme_windows S db E"
  shows "delete_restriction_sites S [E] db ! j = S ! j"
  using single_enzyme_nth [OF assms(1), of E db] assms(2) by simp

lemma remap_borderI:
  assumes "0 < k" and "k < length P"
    and "\<forall>i<k. P ! (length P - k + i) = remap_base (P ! i)"
  shows "remap_border P"
proof -
  have "drop (length P - k) P = map remap_base (take k P)"
  proof (rule nth_equalityI)
    show "length (drop (length P - k) P) = length (map remap_base (take k P))"
      using assms(2) by simp
  next
    fix i assume "i < length (drop (length P - k) P)"
    with assms(2) have i: "i < k" by simp
    with assms(2,3) show "drop (length P - k) P ! i = map remap_base (take k P) ! i"
      by simp
  qed
  moreover from assms(1,2) have "k \<in> set [1..<length P]" by simp
  ultimately show ?thesis unfolding remap_border_def list_ex_iff by blast
qed

lemma occurrence_destroyed:
  assumes lookup: "get_restriction_site_sequence E db = Some P"
    and single: "single_upper S"
    and occ: "matches_ci P S p"
  shows "\<not> matches_ci P (delete_restriction_sites S [E] db) p"
proof
  let ?R = "delete_restriction_sites S [E] db"
  assume again: "matches_ci P ?R p"
  from lookup_Some [OF lookup] have bases: "\<forall>c\<in>set P. is_base c" and len: "0 < length P"
    by auto
  have singleR: "single_upper ?R" using single by (rule single_upper_delete)
  from again have "\<forall>i<length P. upper_char (?R ! (p + i)) = [P ! i]"
    by (simp add: matches_ci_nth [OF bases singleR])
  with len have "upper_char (?R ! (p + 0)) = [P ! 0]" by blast
  moreover from window_char [OF lookup single occ len]
  have "upper_char (?R ! (p + 0)) = [remap_base (P ! 0)]" .
  moreover from bases len have "is_base (P ! 0)" by simp
  ultimately show False using remap_base_changes by (metis list.inject)
qed

lemma new_occurrence_border:
  assumes lookup: "get_restriction_site_sequence E db = Some P"
    and single: "single_upper S"
    and new: "matches_ci P (delete_restriction_sites S [E] db) q"
  shows "remap_border P"
proof -
  let ?R = "delete_restriction_sites S [E] db"
  let ?n = "length P"
  from lookup_Some [OF lookup] have bases: "\<forall>c\<in>set P. is_base c" and len: "0 < ?n"
    by auto
  have lenR: "length ?R = length S" by (rule length_delete_restriction_sites)
  have singleR: "single_upper ?R" using single by (rule single_upper_delete)
  from new have fits: "q + ?n \<le> length S"
    and chars: "\<forall>i<?n. upper_char (?R ! (q + i)) = [P ! i]"
    by (simp_all add: matches_ci_nth [OF bases singleR] lenR)
  have "\<exists>i<?n. q + i \<in> enzyme_windows S db E"
  proof (rule ccontr)
    assume "\<not> (\<exists>i<?n. q + i \<in> enzyme_windows S db E)"
    then have out: "\<forall>i<?n. q + i \<notin> enzyme_windows S db E" by blast
    have "\<forall>i<?n. upper_char (S ! (q + i)) = [P ! i]"
    proof (intro allI impI)
      fix i assume i: "i < ?n"
      with fits have "q + i < length S" by simp
      with out i have same: "?R ! (q + i) = S ! (q + i)" by (simp add: outside_char)
      from chars i have "upper_char (?R ! (q + i)) = [P ! i]" by blast
      then show "upper_char (S ! (q + i)) = [P ! i]" by (simp only: same)
    qed
    with fits have "matches_ci P S q" by (simp add: matches_ci_nth [OF bases single])
    with lookup len have "q + 0 \<in> enzyme_windows S db E"
      unfolding enzyme_windows_iff [OF single] by auto
    with out len show False by blast
  qed
  then obtain i0 where i0: "i0 < ?n" and inw: "q + i0 \<in> enzyme_windows S db E" by blast
  from inw lookup obtain p where occ: "matches_ci P S p" and lo: "p \<le> q + i0"
    and hi: "q + i0 < p + ?n"
    unfolding enzyme_windows_iff [OF single] by auto
  from occurrence_destroyed [OF lookup single occ] new have neq: "p \<noteq> q" by blast
  show ?thesis
  proof (cases "q < p")
    case True
    let ?k = "q + ?n - p"
    from True lo i0 have k: "0 < ?k" "?k < ?n" by simp_all
    have "\<forall>i<?k. P ! (?n - ?k + i) = remap_base (P ! i)"
    proof (intro allI impI)
      fix i assume i: "i < ?k"
      with k have i_n: "i < ?n" by simp
      from True lo i0 i have idx: "?n - ?k + i < ?n" and pos: "q + (?n - ?k + i) = p + i"
        by simp_all
      from chars idx have "upper_char (?R ! (q + (?n - ?k + i))) = [P ! (?n - ?k + i)]" by blast
      moreover from window_char [OF lookup single occ i_n]
      have "upper_char (?R ! (p + i)) = [remap_base (P ! i)]" .
      ultimately show "P ! (?n - ?k + i) = remap_base (P ! i)" by (simp only: pos list.inject)
    qed
    with k show ?thesis by (intro remap_borderI [of ?k])
  next
    case False
    with neq have lt: "p < q" by simp
    let ?k = "p + ?n - q"
    from lt hi i0 have k: "0 < ?k" "?k < ?n" by simp_all
    have "\<forall>i<?k. P ! (?n - ?k + i) = remap_base (P ! i)"
    proof (intro allI impI)
      fix i assume i: "i < ?k"
      with k have i_n: "i < ?n" by simp
      from lt hi i have idx: "?n - ?k + i < ?n" and pos: "p + (?n - ?k + i) = q + i"
        by simp_all
      from chars i_n have "upper_char (?R ! (q + i)) = [P ! i]" by blast
      moreover from window_char [OF lookup single occ idx]
      have "upper_char (?R ! (p + (?n - ?k + i))) = [remap_base (P ! (?n - ?k + i))]" .
      ultimately have "P ! i = remap_base (P ! (?n - ?k + i))" by (simp only: pos list.inject)
      moreover from bases idx have "is_base (P ! (?n - ?k + i))" by simp
      ultimately show "P ! (?n - ?k + i) = remap_base (P ! i)"
        by (simp add: remap_base_involution)
    qed
    with k show ?thesis by (intro remap_borderI [of ?k])
  qed
qed

lemma delete_restriction_sites_unmarked:
  assumes "\<forall>j<length S. j \<notin> (\<Union>e\<in>set L. enzyme_windows S db e)"
  shows "delete_restriction_sites S L db = S"
proof (rule nth_equalityI)
  show "length (delete_restriction_sites S L db) = length S"
    by (rule length_delete_restriction_sites)
next
  fix j assume "j < length (delete_restriction_sites S L db)"
  then have j: "j < length S" by (simp add: length_delete_restriction_sites)
  with assms delete_restriction_sites_nth [OF j, of L db]
  show "delete_restriction_sites S L db ! j = S ! j" by simp
qed

section \<open>The origin locator\<close>

lemma finditer_from_bound:
  "p \<in> set (finditer_from pat s pos) \<Longrightarrow> p + length pat \<le> length s"
proof (induction pat s pos rule: finditer_from.induct)
  case (1 pat s pos)
  show ?case
  proof (cases "length s < pos + length pat")
    case True
    then have "finditer_from pat s pos = []"
      by (simp only: finditer_from.simps [of pat s pos] if_True)
    with "1.prems" show ?thesis by simp
  next
    case room: False
    show ?thesis
    proof (cases "list_all2 elem_matches pat (take (length pat) (drop pos s))")
      case True
      with room have "finditer_from pat s pos = pos # finditer_from pat s (pos + max 1 (length pat))"
        by (simp only: finditer_from.simps [of pat s pos] if_True if_False)
      with "1.prems" have "p = pos \<or> p \<in> set (finditer_from pat s (pos + max 1 (length pat)))"
        by simp
      then show ?thesis
      proof
        assume "p = pos"
        with room show ?thesis by simp
      next
        assume "p \<in> set (finditer_from pat s (pos + max 1 (length pat)))"
        then show ?thesis by (rule "1.IH"(1) [OF room True])
      qed
    next
      case False
      with room have "finditer_from pat s pos = finditer_from pat s (Suc pos)"
        by (simp only: finditer_from.simps [of pat s pos] if_False)
      with "1.prems" have "p \<in> set (finditer_from pat s (Suc pos))" by simp
      then show ?thesis by (rule "1.IH"(2) [OF room False])
    qed
  qed
qed

lemma dnaa_patterns_nonempty: "pat \<in> set dnaa_patterns \<Longrightarrow> 0 < length pat"
proof -
  have "list_all (\<lambda>pat. 0 < length pat) dnaa_patterns"
    by (simp add: dnaa_patterns_def)
  then show "pat \<in> set dnaa_patterns \<Longrightarrow> 0 < length pat"
    by (simp add: list_all_iff)
qed

lemma dnaa_matches_bound: "p \<in> set (dnaa_matches sequence) \<Longrightarrow> p < length sequence"
proof -
  assume "p \<in> set (dnaa_matches sequence)"
  then have "p \<in> (\<Union>pat\<in>set dnaa_patterns. set (finditer_from pat sequence 0))"
    by (simp add: dnaa_matches_def)
  then obtain pat where pat: "pat \<in> set dnaa_patterns" and p: "p \<in> set (finditer_from pat sequence 0)"
    by blast
  from finditer_from_bound [OF p] dnaa_patterns_nonempty [OF pat] show ?thesis by arith
qed

lemma dnaa_matches_sorted: "sorted_wrt (<) (dnaa_matches sequence)"
  by (simp add: dnaa_matches_def)

lemma take_2_drop:
  assumes "Suc i < length ms"
  shows "take 2 (drop i ms) = [ms ! i, ms ! Suc i]"
proof -
  from assms have "drop i ms = ms ! i # drop (Suc i) ms"
    by (simp add: Cons_nth_drop_Suc)
  moreover from assms have "drop (Suc i) ms = ms ! Suc i # drop (Suc (Suc i)) ms"
    by (simp add: Cons_nth_drop_Suc)
  ultimately show ?thesis by (simp add: numeral_2_eq_2)
qed

lemma cluster_loop_step:
  assumes "Suc i < length ms"
  shows "cluster_loop S ms 2 (i # rest) =
    (if close_pair ms i then Inr (Some (cluster_region S ms i)) else cluster_loop S ms 2 rest)"
  by (simp add: take_2_drop [OF assms] close_pair_def cluster_region_def)

lemma cluster_loop_cases:
  assumes "\<forall>i\<in>set idxs. Suc i < length ms"
  shows "cluster_loop S ms 2 idxs = Inr None
    \<or> (\<exists>i\<in>set idxs. cluster_loop S ms 2 idxs = Inr (Some (cluster_region S ms i)))"
  using assms
proof (induction idxs)
  case Nil
  show ?case by simp
next
  case (Cons i rest)
  then have i: "Suc i < length ms" and rest: "\<forall>k\<in>set rest. Suc k < length ms" by simp_all
  show ?case
  proof (cases "close_pair ms i")
    case True
    then show ?thesis by (simp only: cluster_loop_step [OF i] if_True) simp
  next
    case False
    then have "cluster_loop S ms 2 (i # rest) = cluster_loop S ms 2 rest"
      by (simp only: cluster_loop_step [OF i] if_False)
    with Cons.IH [OF rest] show ?thesis by auto
  qed
qed


lemma cluster_region_valid:
  assumes "Suc i < length ms" and "sorted_wrt (<) ms" and "\<forall>p\<in>set ms. p < length S"
  shows "case cluster_region S ms i of (a, b) \<Rightarrow> valid_region S a b"
proof -
  from assms(1,2) have "ms ! i < ms ! Suc i"
    by (simp add: sorted_wrt_nth_less)
  moreover from assms(1,3) have "ms ! Suc i < length S" by simp
  ultimately show ?thesis
    by (auto simp: cluster_region_def valid_region_def)
qed


lemma find_dnaa_boxes_valid:
  "find_dnaa_boxes S 2 = Inr None \<and> dnaa_matches S = []
   \<or> (\<exists>a b. find_dnaa_boxes S 2 = Inr (Some (a, b)) \<and> valid_region S a b)"
proof (cases "dnaa_matches S")
  case Nil
  then show ?thesis by (simp add: find_dnaa_boxes_def Let_def)
next
  case (Cons m rest)
  let ?ms = "dnaa_matches S"
  have bound: "\<forall>p\<in>set ?ms. p < length S" by (simp add: dnaa_matches_bound)
  have sorted: "sorted_wrt (<) ?ms" by (rule dnaa_matches_sorted)
  from Cons bound have m: "m < length S" by simp
  have fallback: "valid_region S (max 0 (int m - 150)) (min (int (length S)) (int m + 250))"
    using m by (auto simp: valid_region_def)
  let ?clustered = "if 2 \<le> length ?ms
      then cluster_loop S ?ms 2 [0..<length ?ms - 2 + 1] else Inr None"
  have unfold: "find_dnaa_boxes S 2 =
      (case ?clustered of
         Inl e \<Rightarrow> Inl e
       | Inr None \<Rightarrow>
           (case ?ms of
              [] \<Rightarrow> Inr None
            | match_pos # _ \<Rightarrow>
                Inr (Some (max 0 (int match_pos - 150),
                           min (int (length S)) (int match_pos + 250))))
       | Inr (Some region) \<Rightarrow> Inr (Some region))"
    by (simp only: find_dnaa_boxes_def Let_def)
  have "?clustered = Inr None
    \<or> (\<exists>i. Suc i < length ?ms \<and> ?clustered = Inr (Some (cluster_region S ?ms i)))"
  proof (cases "2 \<le> length ?ms")
    case True
    have idx: "\<forall>i\<in>set [0..<length ?ms - 2 + 1]. Suc i < length ?ms"
    proof
      fix i assume "i \<in> set [0..<length ?ms - 2 + 1]"
      then have "i < length ?ms - 2 + 1" by (simp only: set_upt atLeastLessThan_iff)
      with True show "Suc i < length ?ms" by arith
    qed
    from cluster_loop_cases [OF idx, of S]
    have "cluster_loop S ?ms 2 [0..<length ?ms - 2 + 1] = Inr None
      \<or> (\<exists>i\<in>set [0..<length ?ms - 2 + 1].
            cluster_loop S ?ms 2 [0..<length ?ms - 2 + 1] = Inr (Some (cluster_region S ?ms i)))" .
    with idx have "cluster_loop S ?ms 2 [0..<length ?ms - 2 + 1] = Inr None
      \<or> (\<exists>i. Suc i < length ?ms \<and>
            cluster_loop S ?ms 2 [0..<length ?ms - 2 + 1] = Inr (Some (cluster_region S ?ms i)))"
      by blast
    then show ?thesis by (simp only: if_P [OF True])
  next
    case False
    then show ?thesis by simp
  qed
  then show ?thesis
  proof
    assume c: "?clustered = Inr None"
    have "find_dnaa_boxes S 2 =
        (case ?ms of
           [] \<Rightarrow> Inr None
         | match_pos # _ \<Rightarrow>
             Inr (Some (max 0 (int match_pos - 150),
                        min (int (length S)) (int match_pos + 250))))"
      by (simp only: unfold c sum.case option.case)
    with Cons have "find_dnaa_boxes S 2
        = Inr (Some (max 0 (int m - 150), min (int (length S)) (int m + 250)))"
      by simp
    with fallback show ?thesis by blast
  next
    assume "\<exists>i. Suc i < length ?ms \<and> ?clustered = Inr (Some (cluster_region S ?ms i))"
    then obtain i where i: "Suc i < length ?ms"
      and c: "?clustered = Inr (Some (cluster_region S ?ms i))" by blast
    obtain a b where ab: "cluster_region S ?ms i = (a, b)" by (cases "cluster_region S ?ms i")
    with cluster_region_valid [OF i sorted bound] have "valid_region S a b" by simp
    moreover have "find_dnaa_boxes S 2 = Inr (Some (a, b))"
      by (simp only: unfold c ab sum.case option.case)
    ultimately show ?thesis by blast
  qed
qed

lemma at_rich_loop_result:
  assumes "0 < w" and "\<forall>i\<in>set idxs. i + w \<le> length S"
    and "best = None \<or> (\<exists>i. best = Some (i, i + w) \<and> i + w \<le> length S)"
  shows "\<exists>r. at_rich_loop S w t best bc idxs = Inr r
    \<and> (r = None \<or> (\<exists>i. r = Some (i, i + w) \<and> i + w \<le> length S))"
  using assms(2,3)
proof (induction idxs arbitrary: best bc)
  case Nil
  then show ?case by simp
next
  case (Cons i rest)
  from Cons.prems(1) have i: "i + w \<le> length S" and rest: "\<forall>k\<in>set rest. k + w \<le> length S"
    by simp_all
  from i assms(1) have window: "take w (drop i S) \<noteq> []" by auto
  let ?window = "take w (drop i S)"
  let ?content = "(of_nat (count_list ?window (of_char CHR ''A'') + count_list ?window (of_char CHR ''T'')) :: rat)
      / of_nat (length ?window)"
  have step: "at_rich_loop S w t best bc (i # rest) =
      (if t \<le> ?content \<and> bc < ?content
       then at_rich_loop S w t (Some (i, i + w)) ?content rest
       else at_rich_loop S w t best bc rest)"
    using window by (simp only: at_rich_loop.simps Let_def if_False)
  show ?case
  proof (cases "t \<le> ?content \<and> bc < ?content")
    case True
    have "at_rich_loop S w t best bc (i # rest)
        = at_rich_loop S w t (Some (i, i + w)) ?content rest"
      by (simp only: step if_P [OF True])
    moreover have "\<exists>r. at_rich_loop S w t (Some (i, i + w)) ?content rest = Inr r
        \<and> (r = None \<or> (\<exists>i. r = Some (i, i + w) \<and> i + w \<le> length S))"
      using rest i by (intro Cons.IH) auto
    ultimately show ?thesis by (simp only:)
  next
    case False
    have "at_rich_loop S w t best bc (i # rest) = at_rich_loop S w t best bc rest"
      by (simp only: step if_not_P [OF False])
    moreover have "\<exists>r. at_rich_loop S w t best bc rest = Inr r
        \<and> (r = None \<or> (\<exists>i. r = Some (i, i + w) \<and> i + w \<le> length S))"
      using rest Cons.prems(2) by (intro Cons.IH)
    ultimately show ?thesis by (simp only:)
  qed
qed

lemma find_at_rich_region_result:
  "\<exists>r. find_at_rich_region S 200 t = Inr r
    \<and> (r = None \<or> (\<exists>i. r = Some (i, i + 200) \<and> i + 200 \<le> length S))"
  unfolding find_at_rich_region_def
  by (rule at_rich_loop_result) auto

section \<open>Claims about the lookup and the cloning-site fragment\<close>

text \<open>
  C7. When no database entry whose key equals the enzyme name up to case has a recognition
  text with a run of four or more of \<open>{A,C,G,T}\<close> (in particular when there is no such
  entry), and the uppercased name is not a key of the built-in table,
  \<open>find_restriction_sites\<close> returns the empty list; the model of the function has no
  error result.
\<close>

theorem unresolved_enzyme_no_sites:
  assumes "\<forall>(key, v)\<in>set db. upper key = upper E \<longrightarrow> \<not> has_site_run (upper (recognition v))"
    and "upper E \<notin> fst ` set known_sites"
  shows "find_restriction_sites S E db = []"
  using lookup_None [OF assms] by (simp add: find_restriction_sites_def)

theorem unresolved_enzyme_no_sites_witness:
  "\<not> has_site_run (upper (ascii ''Recognizes CTC only''))
   \<and> upper (ascii ''XhoI'') \<notin> fst ` set known_sites
   \<and> find_restriction_sites (ascii ''AACTCGAGTT'') (ascii ''XhoI'')
        [((ascii ''xhoi''), \<lparr>category = (ascii ''Restriction enzyme''), name = (ascii ''xhoi''),
                     recognition = (ascii ''Recognizes CTC only'')\<rparr>)] = []"
proof -
  have "re_search_site (upper (ascii ''Recognizes CTC only'')) = None" by code_simp
  then have norun: "\<not> has_site_run (upper (ascii ''Recognizes CTC only''))"
    by (rule re_search_site_None)
  have builtin: "upper (ascii ''XhoI'') \<notin> fst ` set known_sites"
    by (simp add: known_sites_def upper_def upper_char_def ascii_upper_def)
  from norun have "\<forall>(key, v)\<in>set [((ascii ''xhoi''), \<lparr>category = (ascii ''Restriction enzyme''), name = (ascii ''xhoi''),
      recognition = (ascii ''Recognizes CTC only'')\<rparr>)].
      upper key = upper (ascii ''XhoI'') \<longrightarrow> \<not> has_site_run (upper (recognition v))"
    by simp
  from unresolved_enzyme_no_sites [OF this builtin, of "(ascii ''AACTCGAGTT'')"] norun builtin
  show ?thesis by blast
qed

text \<open>
  C8. With an entry under the key \<open>EcoRI\<close> whose recognition text is
  "Recognizes GAATTC, 5' overhangs", \<open>get_restriction_site_sequence\<close> returns
  \<open>GAATTC\<close>; in general an exact-key entry whose uppercased recognition text has a run
  of four or more of \<open>{A,C,G,T}\<close> resolves to the first such run.  A name with no exact
  database match, with no database entry equal to it up to case whose text has such a run,
  and whose uppercase form is not a key of the built-in table, resolves to nothing.
\<close>

theorem lookup_ecori_and_unknown:
  "(map_of db (ascii ''EcoRI'') = Some v \<and> recognition v = (ascii ''Recognizes GAATTC, 5' overhangs'')
      \<longrightarrow> get_restriction_site_sequence (ascii ''EcoRI'') db = Some (ascii ''GAATTC''))
   \<and> (map_of db E = Some w \<and> has_site_run (upper (recognition w))
      \<longrightarrow> (\<exists>m. get_restriction_site_sequence E db = Some m
               \<and> first_site_run (upper (recognition w)) m))
   \<and> (map_of db E = None
       \<and> (\<forall>(key, w)\<in>set db. upper key = upper E \<longrightarrow> \<not> has_site_run (upper (recognition w)))
       \<and> upper E \<notin> fst ` set known_sites
      \<longrightarrow> get_restriction_site_sequence E db = None)"
proof (intro conjI impI)
  assume a: "map_of db (ascii ''EcoRI'') = Some v \<and> recognition v = (ascii ''Recognizes GAATTC, 5' overhangs'')"
  have "re_search_site (upper (ascii ''Recognizes GAATTC, 5' overhangs'')) = Some (ascii ''GAATTC'')"
    by code_simp
  with a have "exact_match (ascii ''EcoRI'') db = Some (ascii ''GAATTC'')"
    by (simp add: exact_match_def)
  then show "get_restriction_site_sequence (ascii ''EcoRI'') db = Some (ascii ''GAATTC'')"
    by (simp add: get_restriction_site_sequence_def)
next
  assume "map_of db E = Some w \<and> has_site_run (upper (recognition w))"
  then show "\<exists>m. get_restriction_site_sequence E db = Some m
      \<and> first_site_run (upper (recognition w)) m"
    by (intro exact_match_first_run) simp_all
next
  assume "map_of db E = None
    \<and> (\<forall>(key, w)\<in>set db. upper key = upper E \<longrightarrow> \<not> has_site_run (upper (recognition w)))
    \<and> upper E \<notin> fst ` set known_sites"
  then show "get_restriction_site_sequence E db = None"
    by (intro lookup_None) simp_all
qed

theorem lookup_ecori_and_unknown_witness:
  "get_restriction_site_sequence (ascii ''EcoRI'')
     [((ascii ''EcoRI''), \<lparr>category = (ascii ''Restriction enzyme''), name = (ascii ''EcoRI''),
                   recognition = (ascii ''Recognizes GAATTC, 5' overhangs'')\<rparr>)] = Some (ascii ''GAATTC'')
   \<and> has_site_run (upper (ascii ''Recognizes GAATTC, 5' overhangs''))
   \<and> first_site_run (upper (ascii ''Recognizes GAATTC, 5' overhangs'')) (ascii ''GAATTC'')
   \<and> get_restriction_site_sequence (ascii ''XhoI'')
     [((ascii ''EcoRI''), \<lparr>category = (ascii ''Restriction enzyme''), name = (ascii ''EcoRI''),
                   recognition = (ascii ''Recognizes GAATTC, 5' overhangs'')\<rparr>)] = None"
proof -
  let ?v = "\<lparr>category = (ascii ''Restriction enzyme''), name = (ascii ''EcoRI''),
             recognition = (ascii ''Recognizes GAATTC, 5' overhangs'')\<rparr>"
  have exact: "map_of [((ascii ''EcoRI''), ?v)] (ascii ''EcoRI'') = Some ?v
      \<and> recognition ?v = (ascii ''Recognizes GAATTC, 5' overhangs'')"
    by simp
  have "re_search_site (upper (ascii ''Recognizes GAATTC, 5' overhangs'')) = Some (ascii ''GAATTC'')"
    by code_simp
  then have run: "has_site_run (upper (ascii ''Recognizes GAATTC, 5' overhangs''))"
    by (rule re_search_site_Some_run)
  then have entry: "map_of [((ascii ''EcoRI''), ?v)] (ascii ''EcoRI'') = Some ?v
      \<and> has_site_run (upper (recognition ?v))"
    by simp
  have "upper (ascii ''EcoRI'') \<noteq> upper (ascii ''XhoI'')"
    by (simp add: upper_def upper_char_def ascii_upper_def)
  then have unknown: "map_of [((ascii ''EcoRI''), ?v)] (ascii ''XhoI'') = None
      \<and> (\<forall>(key, w)\<in>set [((ascii ''EcoRI''), ?v)].
            upper key = upper (ascii ''XhoI'') \<longrightarrow> \<not> has_site_run (upper (recognition w)))
      \<and> upper (ascii ''XhoI'') \<notin> fst ` set known_sites"
    by (simp add: known_sites_def upper_def upper_char_def ascii_upper_def)
  from lookup_ecori_and_unknown [of "[((ascii ''EcoRI''), ?v)]" ?v "(ascii ''EcoRI'')" ?v] exact entry
  have first: "get_restriction_site_sequence (ascii ''EcoRI'') [((ascii ''EcoRI''), ?v)] = Some (ascii ''GAATTC'')"
    and "\<exists>m. get_restriction_site_sequence (ascii ''EcoRI'') [((ascii ''EcoRI''), ?v)] = Some m
      \<and> first_site_run (upper (recognition ?v)) m"
    by blast+
  then have run1: "first_site_run (upper (ascii ''Recognizes GAATTC, 5' overhangs'')) (ascii ''GAATTC'')"
    by auto
  from lookup_ecori_and_unknown [of "[((ascii ''EcoRI''), ?v)]" ?v "(ascii ''XhoI'')"] unknown
  have "get_restriction_site_sequence (ascii ''XhoI'') [((ascii ''EcoRI''), ?v)] = None" by blast
  with first run run1 show ?thesis by blast
qed

text \<open>
  C9. \<open>build_mcs_sequence\<close> returns the recognition sequences of the resolvable enzymes,
  in input order, joined with the spacer \<open>AA\<close>; unresolvable enzymes contribute nothing.
  Over the BamHI and EcoRI sites, resolving to \<open>GGATCC\<close> and \<open>GAATTC\<close>, the result is the
  two sequences with the spacer between them.
\<close>

theorem build_mcs_sequence_joins_resolved:
  "fst (build_mcs_sequence mcs_sites db) = str_join (ascii ''AA'') (resolved_sites db mcs_sites)
   \<and> (get_restriction_site_sequence (ascii ''BamHI'') db = Some (ascii ''GGATCC'')
       \<and> get_restriction_site_sequence (ascii ''EcoRI'') db = Some (ascii ''GAATTC'')
      \<longrightarrow> fst (build_mcs_sequence [((ascii ''BamHI_site''), (ascii ''BamHI'')), ((ascii ''EcoRI_site''), (ascii ''EcoRI''))] db)
          = (ascii ''GGATCC'') @ (ascii ''AA'') @ (ascii ''GAATTC''))"
proof -
  have general: "fst (build_mcs_sequence sites db) = str_join (ascii ''AA'') (resolved_sites db sites)"
    for sites
    using mcs_loop_resolved [of db sites "[]" "[]"]
    by (cases "mcs_loop db sites [] []") (simp add: build_mcs_sequence_def)
  show ?thesis
  proof (intro conjI impI)
    show "fst (build_mcs_sequence mcs_sites db) = str_join (ascii ''AA'') (resolved_sites db mcs_sites)"
      by (rule general)
  next
    assume "get_restriction_site_sequence (ascii ''BamHI'') db = Some (ascii ''GGATCC'')
      \<and> get_restriction_site_sequence (ascii ''EcoRI'') db = Some (ascii ''GAATTC'')"
    then show "fst (build_mcs_sequence [((ascii ''BamHI_site''), (ascii ''BamHI'')), ((ascii ''EcoRI_site''), (ascii ''EcoRI''))] db)
        = (ascii ''GGATCC'') @ (ascii ''AA'') @ (ascii ''GAATTC'')"
      by (simp add: general resolved_sites_def)
  qed
qed

theorem build_mcs_sequence_joins_resolved_witness:
  "get_restriction_site_sequence (ascii ''BamHI'') [] = Some (ascii ''GGATCC'')
   \<and> get_restriction_site_sequence (ascii ''EcoRI'') [] = Some (ascii ''GAATTC'')
   \<and> fst (build_mcs_sequence [((ascii ''BamHI_site''), (ascii ''BamHI'')), ((ascii ''EcoRI_site''), (ascii ''EcoRI''))] [])
       = (ascii ''GGATCCAAGAATTC'')"
proof -
  have bamhi: "get_restriction_site_sequence (ascii ''BamHI'') [] = Some (ascii ''GGATCC'')" by code_simp
  have ecori: "get_restriction_site_sequence (ascii ''EcoRI'') [] = Some (ascii ''GAATTC'')" by code_simp
  from build_mcs_sequence_joins_resolved [of "[]" "[]"] bamhi ecori
  show ?thesis by simp
qed

section \<open>Claims about the restriction site engine\<close>

text \<open>
  C2. For every string, every list of enzyme names and every database, the sequence returned
  by \<open>delete_restriction_sites\<close> has the length of its input.
\<close>

theorem delete_restriction_sites_length:
  "length (delete_restriction_sites S L db) = length S"
  by (simp add: delete_restriction_sites_def Let_def)

text \<open>
  C10. A character whose uppercase form is none of A, T, G, C is left unchanged by
  \<open>delete_restriction_sites\<close>, whatever the enzyme list and the database, also at a
  position that the marking loops have marked; the function is total and has no error
  result.
\<close>

theorem delete_restriction_sites_skips_other_chars:
  "length (delete_restriction_sites S L db) = length S
   \<and> (\<forall>j<length S. upper_char (S ! j) \<notin> {ascii ''A'', ascii ''T'', ascii ''G'', ascii ''C''}
         \<longrightarrow> delete_restriction_sites S L db ! j = S ! j)"
proof (intro conjI allI impI)
  show "length (delete_restriction_sites S L db) = length S"
    by (rule length_delete_restriction_sites)
next
  fix j
  assume j: "j < length S"
    and other: "upper_char (S ! j) \<notin> {ascii ''A'', ascii ''T'', ascii ''G'', ascii ''C''}"
  from other have "mutated_char (S ! j) = S ! j" by (rule mutated_char_non_base)
  with delete_restriction_sites_nth [OF j, of L db]
  show "delete_restriction_sites S L db ! j = S ! j" by simp
qed

text \<open>
  In \<open>U+00DF GAATTCNN\<close> the uppercased sequence is one character longer, the EcoRI site
  is found at position 2 and the positions 2 to 7 are marked: position 7 holds an \<open>N\<close>,
  which the mutation loop skips.
\<close>

theorem delete_restriction_sites_skips_other_chars_witness:
  "7 < length (223 # ascii ''GAATTCNN'')
   \<and> upper_char ((223 # ascii ''GAATTCNN'') ! 7)
       \<notin> {ascii ''A'', ascii ''T'', ascii ''G'', ascii ''C''}
   \<and> 7 \<in> fold (mark_enzyme (223 # ascii ''GAATTCNN'') []) [ascii ''EcoRI''] {}
   \<and> delete_restriction_sites (223 # ascii ''GAATTCNN'') [ascii ''EcoRI''] [] ! 7
       = (223 # ascii ''GAATTCNN'') ! 7"
proof -
  let ?S = "223 # ascii ''GAATTCNN''"
  have len: "7 < length ?S" by simp
  have other: "upper_char (?S ! 7) \<notin> {ascii ''A'', ascii ''T'', ascii ''G'', ascii ''C''}"
    by (simp add: upper_char_def ascii_upper_def)
  have resolved: "get_restriction_site_sequence (ascii ''EcoRI'') [] = Some (ascii ''GAATTC'')"
    by code_simp
  have found: "find_restriction_sites ?S (ascii ''EcoRI'') [] = [2]" by code_simp
  have window: "enzyme_windows ?S [] (ascii ''EcoRI'') = {2..<8}"
    unfolding enzyme_windows_def resolved found by simp
  have "fold (mark_enzyme ?S []) [ascii ''EcoRI''] {} = enzyme_windows ?S [] (ascii ''EcoRI'')"
    by (simp add: mark_enzyme_eq)
  then have marked: "7 \<in> fold (mark_enzyme ?S []) [ascii ''EcoRI''] {}"
    unfolding window by simp
  from delete_restriction_sites_skips_other_chars [of ?S "[ascii ''EcoRI'']" "[]"]
  have "\<forall>j<length ?S. upper_char (?S ! j) \<notin> {ascii ''A'', ascii ''T'', ascii ''G'', ascii ''C''}
      \<longrightarrow> delete_restriction_sites ?S [ascii ''EcoRI''] [] ! j = ?S ! j"
    by (rule conjunct2)
  with len other
  have "delete_restriction_sites ?S [ascii ''EcoRI''] [] ! 7 = ?S ! 7"
    by blast
  with len other marked show ?thesis by blast
qed

text \<open>
  C5. On a sequence of uppercase A, C, G, T: the output of \<open>delete_restriction_sites\<close> at
  a marked position is the fixed remap of the input base, which differs from it; at an
  unmarked position it is the input base.
\<close>

theorem delete_restriction_sites_frame:
  assumes "set S \<subseteq> set (ascii ''ACGT'')"
  shows "\<forall>j<length S.
      (j \<in> marked_positions S L db \<longrightarrow>
         delete_restriction_sites S L db ! j = remap_base (S ! j)
         \<and> delete_restriction_sites S L db ! j \<noteq> S ! j)
      \<and> (j \<notin> marked_positions S L db \<longrightarrow> delete_restriction_sites S L db ! j = S ! j)"
proof (intro allI impI)
  fix j
  assume j: "j < length S"
  from assms have S: "\<forall>c\<in>set S. is_base c" by (auto simp only: is_base_ACGT)
  with j have base: "is_base (S ! j)" by simp
  have nth: "delete_restriction_sites S L db ! j =
      (if j \<in> marked_positions S L db then mutated_char (S ! j) else S ! j)"
    using delete_restriction_sites_nth [OF j, of L db] windows_marked_positions [OF S]
    by simp
  show "(j \<in> marked_positions S L db \<longrightarrow>
         delete_restriction_sites S L db ! j = remap_base (S ! j)
         \<and> delete_restriction_sites S L db ! j \<noteq> S ! j)
      \<and> (j \<notin> marked_positions S L db \<longrightarrow> delete_restriction_sites S L db ! j = S ! j)"
    using nth mutated_char_base [OF base] remap_base_changes [OF base] by simp
qed

theorem delete_restriction_sites_frame_witness:
  "set (ascii ''ATCGGAATTCATCG'') \<subseteq> set (ascii ''ACGT'')
   \<and> 4 < length (ascii ''ATCGGAATTCATCG'')
   \<and> 4 \<in> marked_positions (ascii ''ATCGGAATTCATCG'') [ascii ''EcoRI''] []
   \<and> delete_restriction_sites (ascii ''ATCGGAATTCATCG'') [ascii ''EcoRI''] [] ! 4
       = remap_base (ascii ''ATCGGAATTCATCG'' ! 4)"
proof -
  let ?S = "ascii ''ATCGGAATTCATCG''"
  have sub: "set ?S \<subseteq> set (ascii ''ACGT'')" by simp
  have len: "4 < length ?S" by simp
  have "get_restriction_site_sequence (ascii ''EcoRI'') [] = Some (ascii ''GAATTC'')"
    by code_simp
  moreover have "occurs_at (ascii ''GAATTC'') ?S 4" by (simp add: occurs_at_def)
  ultimately have "\<exists>P p. get_restriction_site_sequence (ascii ''EcoRI'') [] = Some P
      \<and> occurs_at P ?S p \<and> p \<le> 4 \<and> 4 < p + length P"
    by (intro exI [of _ "ascii ''GAATTC''"] exI [of _ 4]) simp
  then have marked: "4 \<in> marked_positions ?S [ascii ''EcoRI''] []"
    by (simp add: marked_positions_def)
  from delete_restriction_sites_frame [OF sub, of "[ascii ''EcoRI'']" "[]"] len marked
  have "delete_restriction_sites ?S [ascii ''EcoRI''] [] ! 4 = remap_base (?S ! 4)" by blast
  with sub len marked show ?thesis by blast
qed

text \<open>
  C4, as the code has it.  For an enzyme that resolves to a pattern and a sequence whose
  characters each have a one-character uppercase form (every ASCII sequence is one),
  \<open>find_restriction_sites\<close> returns, in strictly ascending order, exactly the positions at
  which the pattern matches the sequence case-insensitively; overlapping occurrences are
  included: searching \<open>AA\<close> in \<open>AAA\<close> gives the positions 0 and 1.
\<close>

theorem find_restriction_sites_all_occurrences:
  "(get_restriction_site_sequence E db = Some P \<and> single_upper S \<longrightarrow>
      sorted_wrt (<) (find_restriction_sites S E db)
      \<and> set (find_restriction_sites S E db) = {p. matches_ci P S p})
   \<and> ((\<forall>c\<in>set S. c < 128) \<longrightarrow> single_upper S)
   \<and> find_occurrences (ascii ''AAA'') (ascii ''AA'') = [0, 1]"
proof (intro conjI impI)
  assume a: "get_restriction_site_sequence E db = Some P \<and> single_upper S"
  then have P: "get_restriction_site_sequence E db = Some P" and S: "single_upper S"
    by simp_all
  show "sorted_wrt (<) (find_restriction_sites S E db)"
    by (simp only: find_restriction_sites_resolved [OF P] sorted_find_occurrences)
  show "set (find_restriction_sites S E db) = {p. matches_ci P S p}"
    by (simp only: find_restriction_sites_resolved [OF P]
        set_find_occurrences [OF S lookup_upper [OF P]])
next
  assume "\<forall>c\<in>set S. c < 128"
  then show "single_upper S" by (rule single_upper_ascii)
next
  show "find_occurrences (ascii ''AAA'') (ascii ''AA'') = [0, 1]" by code_simp
qed

theorem find_restriction_sites_all_occurrences_witness:
  "get_restriction_site_sequence (ascii ''EcoRI'') [] = Some (ascii ''GAATTC'')
   \<and> single_upper (ascii ''gaattcGAATTC'')
   \<and> sorted_wrt (<) (find_restriction_sites (ascii ''gaattcGAATTC'') (ascii ''EcoRI'') [])
   \<and> set (find_restriction_sites (ascii ''gaattcGAATTC'') (ascii ''EcoRI'') [])
       = {p. matches_ci (ascii ''GAATTC'') (ascii ''gaattcGAATTC'') p}"
proof -
  have resolved: "get_restriction_site_sequence (ascii ''EcoRI'') [] = Some (ascii ''GAATTC'')"
    by code_simp
  have "\<forall>c\<in>set (ascii ''gaattcGAATTC''). c < 128" by simp
  with find_restriction_sites_all_occurrences [of "ascii ''EcoRI''" "[]" "ascii ''GAATTC''"
      "ascii ''gaattcGAATTC''"]
  have single: "single_upper (ascii ''gaattcGAATTC'')" by blast
  from find_restriction_sites_all_occurrences [of "ascii ''EcoRI''" "[]" "ascii ''GAATTC''"
      "ascii ''gaattcGAATTC''"] resolved single
  show ?thesis by blast
qed

text \<open>
  \<open>str.upper()\<close> turns each \<open>U+00DF\<close> into \<open>SS\<close>: in six of them followed by \<open>GAATTC\<close>
  the search runs on an uppercased sequence of 18 characters and returns position 12,
  which is the length of the sequence, while the pattern matches at position 6.
\<close>

theorem find_restriction_sites_shifted:
  "get_restriction_site_sequence (ascii ''EcoRI'') [] = Some (ascii ''GAATTC'')
   \<and> length ([223, 223, 223, 223, 223, 223] @ ascii ''GAATTC'') = 12
   \<and> find_restriction_sites ([223, 223, 223, 223, 223, 223] @ ascii ''GAATTC'')
        (ascii ''EcoRI'') [] = [12]
   \<and> matches_ci (ascii ''GAATTC'') ([223, 223, 223, 223, 223, 223] @ ascii ''GAATTC'') 6
   \<and> \<not> matches_ci (ascii ''GAATTC'') ([223, 223, 223, 223, 223, 223] @ ascii ''GAATTC'') 12"
proof (intro conjI)
  show "get_restriction_site_sequence (ascii ''EcoRI'') [] = Some (ascii ''GAATTC'')"
    by code_simp
  show "length ([223, 223, 223, 223, 223, 223] @ ascii ''GAATTC'') = 12" by simp
  show "find_restriction_sites ([223, 223, 223, 223, 223, 223] @ ascii ''GAATTC'')
        (ascii ''EcoRI'') [] = [12]"
    by code_simp
  show "matches_ci (ascii ''GAATTC'') ([223, 223, 223, 223, 223, 223] @ ascii ''GAATTC'') 6"
    by code_simp
  show "\<not> matches_ci (ascii ''GAATTC'') ([223, 223, 223, 223, 223, 223] @ ascii ''GAATTC'') 12"
    by (simp add: matches_ci_def)
qed

section \<open>Claims about the origin locator\<close>

text \<open>
  C3, as the code has it.  \<open>find_ori\<close> never raises: it returns a triple whose method is
  one of \<open>dnaa_boxes\<close>, \<open>at_rich\<close>, \<open>default\<close>, with \<open>0 \<le> start \<le> end \<le> len(S)\<close>; the
  Region invariant \<open>start < end\<close> holds whenever the sequence is not empty.
\<close>

theorem find_ori_region:
  "\<exists>start end method. find_ori S = Inr (start, end, method)
     \<and> method \<in> set [''dnaa_boxes'', ''at_rich'', ''default'']
     \<and> 0 \<le> start \<and> start \<le> end \<and> end \<le> int (length S)
     \<and> (S \<noteq> [] \<longrightarrow> valid_region S start end)"
proof -
  from find_dnaa_boxes_valid [of S] show ?thesis
  proof
    assume "\<exists>a b. find_dnaa_boxes S 2 = Inr (Some (a, b)) \<and> valid_region S a b"
    then obtain a b where "find_dnaa_boxes S 2 = Inr (Some (a, b))" "valid_region S a b"
      by blast
    then show ?thesis by (simp add: find_ori_def valid_region_def)
  next
    assume none: "find_dnaa_boxes S 2 = Inr None \<and> dnaa_matches S = []"
    from find_at_rich_region_result [of S "65 / 100"]
    obtain r where r: "find_at_rich_region S 200 (65 / 100) = Inr r"
      and shape: "r = None \<or> (\<exists>i. r = Some (i, i + 200) \<and> i + 200 \<le> length S)" by blast
    from shape show ?thesis
    proof
      assume "r = None"
      with none r have "find_ori S = Inr (0, min 300 (int (length S)), ''default'')"
        by (simp add: find_ori_def Let_def)
      then show ?thesis by (simp add: valid_region_def)
    next
      assume "\<exists>i. r = Some (i, i + 200) \<and> i + 200 \<le> length S"
      then obtain i where "r = Some (i, i + 200)" "i + 200 \<le> length S" by blast
      with none r have "find_ori S = Inr (int i, int (i + 200), ''at_rich'')"
        and "int (i + 200) \<le> int (length S)"
        by (simp_all add: find_ori_def)
      then show ?thesis by (simp add: valid_region_def)
    qed
  qed
qed

theorem find_ori_region_witness:
  "(ascii ''A'') \<noteq> []
   \<and> (\<exists>start end method. find_ori (ascii ''A'') = Inr (start, end, method)
        \<and> valid_region (ascii ''A'') start end)"
proof -
  have nonempty: "(ascii ''A'') \<noteq> []" by simp
  from find_ori_region [of "(ascii ''A'')"] nonempty show ?thesis by blast
qed

text \<open>
  On the empty sequence the locator falls through to the default region \<open>[0, 0)\<close>, which
  does not satisfy the Region invariant.
\<close>

theorem find_ori_empty_region:
  "find_ori [] = Inr (0, 0, ''default'') \<and> \<not> valid_region [] 0 0"
proof
  show "find_ori [] = Inr (0, 0, ''default'')" by code_simp
  show "\<not> valid_region [] 0 0" by (simp add: valid_region_def)
qed



section \<open>Deletion followed by search\<close>

text \<open>
  C1, as the code has it.  For an enzyme that resolves to a pattern \<open>P\<close> and a sequence
  whose characters each have a one-character uppercase form (every ASCII sequence is
  one): no position at which \<open>P\<close> matched the sequence is a match in the result of
  \<open>delete_restriction_sites\<close> for that enzyme; and when \<open>P\<close> has no remap border,
  \<open>find_restriction_sites\<close> on the result returns the empty list.
\<close>

theorem delete_then_find_no_sites:
  assumes "get_restriction_site_sequence E db = Some P" and "single_upper S"
  shows "(\<forall>p. matches_ci P S p \<longrightarrow> \<not> matches_ci P (delete_restriction_sites S [E] db) p)
    \<and> (\<not> remap_border P \<longrightarrow>
         find_restriction_sites (delete_restriction_sites S [E] db) E db = [])"
proof (intro conjI allI impI)
  fix p assume "matches_ci P S p"
  with assms show "\<not> matches_ci P (delete_restriction_sites S [E] db) p"
    by (rule occurrence_destroyed)
next
  assume free: "\<not> remap_border P"
  let ?R = "delete_restriction_sites S [E] db"
  have "single_upper ?R" using assms(2) by (rule single_upper_delete)
  then have "set (find_restriction_sites ?R E db) = {q. matches_ci P ?R q}"
    by (simp only: find_restriction_sites_resolved [OF assms(1)]
        set_find_occurrences [OF _ lookup_upper [OF assms(1)]])
  moreover have "\<not> matches_ci P ?R q" for q
    using new_occurrence_border [OF assms] free by blast
  ultimately have "set (find_restriction_sites ?R E db) = {}" by simp
  then show "find_restriction_sites ?R E db = []" by simp
qed

theorem delete_then_find_no_sites_witness:
  "get_restriction_site_sequence (ascii ''EcoRI'') [] = Some (ascii ''GAATTC'')
   \<and> single_upper (ascii ''ATCGGAATTCATCG'')
   \<and> \<not> remap_border (ascii ''GAATTC'')
   \<and> matches_ci (ascii ''GAATTC'') (ascii ''ATCGGAATTCATCG'') 4
   \<and> \<not> matches_ci (ascii ''GAATTC'')
         (delete_restriction_sites (ascii ''ATCGGAATTCATCG'') [ascii ''EcoRI''] []) 4
   \<and> find_restriction_sites
        (delete_restriction_sites (ascii ''ATCGGAATTCATCG'') [ascii ''EcoRI''] [])
        (ascii ''EcoRI'') [] = []"
proof -
  have resolved: "get_restriction_site_sequence (ascii ''EcoRI'') [] = Some (ascii ''GAATTC'')"
    by code_simp
  have single: "single_upper (ascii ''ATCGGAATTCATCG'')"
    by (rule single_upper_ascii) simp
  have free: "\<not> remap_border (ascii ''GAATTC'')" by code_simp
  have occ: "matches_ci (ascii ''GAATTC'') (ascii ''ATCGGAATTCATCG'') 4" by code_simp
  from delete_then_find_no_sites [OF resolved single] free occ
  show ?thesis using resolved single by blast
qed

text \<open>
  Two sequences on which a site remains.  The built-in pattern of SalI, \<open>GTCGAC\<close>, has a
  remap border (\<open>AC\<close> is the remap of \<open>GT\<close>): mutating its occurrence at position 4 of
  \<open>GTCGGTCGAC\<close> gives \<open>GTCGACTAGT\<close>, where the pattern occurs at position 0.  In six
  \<open>U+00DF\<close> followed by \<open>GAATTC\<close> the EcoRI site is found at position 12 of the
  uppercased sequence, the marked positions 12 to 17 lie beyond the 12 characters of the
  sequence, nothing is mutated and the site is found again.
\<close>

theorem delete_then_find_site_remains:
  "get_restriction_site_sequence (ascii ''SalI'') [] = Some (ascii ''GTCGAC'')
   \<and> delete_restriction_sites (ascii ''GTCGGTCGAC'') [ascii ''SalI''] [] = ascii ''GTCGACTAGT''
   \<and> find_restriction_sites
        (delete_restriction_sites (ascii ''GTCGGTCGAC'') [ascii ''SalI''] [])
        (ascii ''SalI'') [] = [0]
   \<and> get_restriction_site_sequence (ascii ''EcoRI'') [] = Some (ascii ''GAATTC'')
   \<and> \<not> remap_border (ascii ''GAATTC'')
   \<and> delete_restriction_sites ([223, 223, 223, 223, 223, 223] @ ascii ''GAATTC'')
        [ascii ''EcoRI''] [] = [223, 223, 223, 223, 223, 223] @ ascii ''GAATTC''
   \<and> find_restriction_sites
        (delete_restriction_sites ([223, 223, 223, 223, 223, 223] @ ascii ''GAATTC'')
           [ascii ''EcoRI''] [])
        (ascii ''EcoRI'') [] = [12]"
proof -
  let ?S = "ascii ''GTCGGTCGAC''"
  have resolved: "get_restriction_site_sequence (ascii ''SalI'') [] = Some (ascii ''GTCGAC'')"
    by code_simp
  have found: "find_restriction_sites ?S (ascii ''SalI'') [] = [4]" by code_simp
  have window: "enzyme_windows ?S [] (ascii ''SalI'') = {4..<10}"
    unfolding enzyme_windows_def resolved found by simp
  have "fold (mark_enzyme ?S []) [ascii ''SalI''] {} = enzyme_windows ?S [] (ascii ''SalI'')"
    by (simp add: mark_enzyme_eq)
  then have "fold (mark_enzyme ?S []) [ascii ''SalI''] {} = {4..<10}"
    by (simp only: window)
  moreover have "rev (sorted_list_of_set {4..<10::nat}) = [9, 8, 7, 6, 5, 4]"
    by code_simp
  moreover have "fold mutate_base [9, 8, 7, 6, 5, 4] ?S = ascii ''GTCGACTAGT''"
    by code_simp
  ultimately have deleted: "delete_restriction_sites ?S [ascii ''SalI''] [] = ascii ''GTCGACTAGT''"
    by (simp only: delete_restriction_sites_def Let_def)
  have again: "find_restriction_sites (ascii ''GTCGACTAGT'') (ascii ''SalI'') [] = [0]"
    by code_simp
  let ?T = "[223, 223, 223, 223, 223, 223] @ ascii ''GAATTC''"
  have resolved': "get_restriction_site_sequence (ascii ''EcoRI'') [] = Some (ascii ''GAATTC'')"
    by code_simp
  have free: "\<not> remap_border (ascii ''GAATTC'')" by code_simp
  have found': "find_restriction_sites ?T (ascii ''EcoRI'') [] = [12]" by code_simp
  have window': "enzyme_windows ?T [] (ascii ''EcoRI'') = {12..<18}"
    unfolding enzyme_windows_def resolved' found' by simp
  have "(\<Union>e\<in>set [ascii ''EcoRI'']. enzyme_windows ?T [] e)
      = enzyme_windows ?T [] (ascii ''EcoRI'')"
    by simp
  then have "\<forall>j<length ?T. j \<notin> (\<Union>e\<in>set [ascii ''EcoRI'']. enzyme_windows ?T [] e)"
    unfolding window' by simp
  then have deleted': "delete_restriction_sites ?T [ascii ''EcoRI''] [] = ?T"
    by (rule delete_restriction_sites_unmarked)
  from resolved deleted again resolved' free deleted' found'
  show ?thesis by (simp only: simp_thms)
qed

end
